theory Spec2Isabelle
  imports Main
begin

section \<open>Python and SQLite string primitives\<close>

text \<open>
  A Python \<open>str\<close> is a sequence of code points. It is modelled as a \<open>string\<close> whose
  characters are the code points below 256 (ASCII and Latin-1), which is the range on
  which the tables below are written out. The SQLite functions \<open>TRIM\<close> and \<open>LOWER\<close>
  used by the duplicate queries are modelled on the same strings: \<open>TRIM\<close> removes the
  space character U+0020 only, and the built-in \<open>LOWER\<close> folds the ASCII letters only.
\<close>

definition is_space :: "char \<Rightarrow> bool" where
  \<comment> \<open>\<open>str.isspace\<close> on one code point below 256\<close>
  "is_space c \<longleftrightarrow> c \<in> {CHR 0x09, CHR 0x0A, CHR 0x0B, CHR 0x0C, CHR 0x0D,
     CHR 0x1C, CHR 0x1D, CHR 0x1E, CHR 0x1F, CHR 0x20, CHR 0x85, CHR 0xA0}"

definition strip :: "string \<Rightarrow> string" where
  \<comment> \<open>\<open>str.strip()\<close>\<close>
  "strip s = rev (dropWhile is_space (rev (dropWhile is_space s)))"

definition py_lower_char :: "char \<Rightarrow> char" where
  "py_lower_char c =
     (let n = (of_char c :: nat) in
      if (65 \<le> n \<and> n \<le> 90) \<or> (192 \<le> n \<and> n \<le> 222 \<and> n \<noteq> 215)
      then char_of (n + 32) else c)"

definition lower :: "string \<Rightarrow> string" where
  \<comment> \<open>\<open>str.lower()\<close>\<close>
  "lower s = map py_lower_char s"

definition sql_lower_char :: "char \<Rightarrow> char" where
  "sql_lower_char c =
     (let n = (of_char c :: nat) in
      if 65 \<le> n \<and> n \<le> 90 then char_of (n + 32) else c)"

definition sql_lower :: "string \<Rightarrow> string" where
  \<comment> \<open>SQLite \<open>LOWER(X)\<close>\<close>
  "sql_lower s = map sql_lower_char s"

definition sql_trim :: "string \<Rightarrow> string" where
  \<comment> \<open>SQLite \<open>TRIM(X)\<close>\<close>
  "sql_trim s =
     rev (dropWhile (\<lambda>c. c = CHR '' '') (rev (dropWhile (\<lambda>c. c = CHR '' '') s)))"

definition is_linebreak :: "char \<Rightarrow> bool" where
  \<comment> \<open>the line boundaries of \<open>str.splitlines()\<close> below 256\<close>
  "is_linebreak c \<longleftrightarrow> c \<in> {CHR 0x0A, CHR 0x0B, CHR 0x0C, CHR 0x0D,
     CHR 0x1C, CHR 0x1D, CHR 0x1E, CHR 0x85}"

fun splitlines_from :: "string \<Rightarrow> string \<Rightarrow> string list" where
  \<comment> \<open>the first argument is the line read so far\<close>
  "splitlines_from cur [] = (if cur = [] then [] else [cur])"
| "splitlines_from cur [c] = (if is_linebreak c then [cur] else [cur @ [c]])"
| "splitlines_from cur (c # d # cs) =
     (if c = CHR 0x0D \<and> d = CHR 0x0A then cur # splitlines_from [] cs
      else if is_linebreak c then cur # splitlines_from [] (d # cs)
      else splitlines_from (cur @ [c]) (d # cs))"

definition splitlines :: "string \<Rightarrow> string list" where
  \<comment> \<open>\<open>str.splitlines()\<close>\<close>
  "splitlines s = splitlines_from [] s"

definition startswith :: "string \<Rightarrow> string \<Rightarrow> bool" where
  \<comment> \<open>\<open>s.startswith(p)\<close>\<close>
  "startswith s p \<longleftrightarrow> take (length p) s = p"

fun contains :: "string \<Rightarrow> string \<Rightarrow> bool" where
  \<comment> \<open>\<open>sub in s\<close>\<close>
  "contains sub [] = (sub = [])"
| "contains sub (c # cs) = (startswith (c # cs) sub \<or> contains sub cs)"

fun join :: "string \<Rightarrow> string list \<Rightarrow> string" where
  \<comment> \<open>\<open>sep.join(xs)\<close>\<close>
  "join sep [] = []"
| "join sep [x] = x"
| "join sep (x # y # ys) = x @ sep @ join sep (y # ys)"

definition truthy :: "string option \<Rightarrow> bool" where
  \<comment> \<open>the truth value of a Python value that is \<open>None\<close> or a \<open>str\<close>\<close>
  "truthy v = (case v of None \<Rightarrow> False | Some s \<Rightarrow> s \<noteq> [])"


section \<open>Records and tag mappings\<close>

datatype py_error =
  KeyError | AttributeError | IntegrityError | OperationalError | OverflowError

text \<open>
  The tag mapping is the dictionary with the six keys \<open>title\<close>, \<open>author\<close>,
  \<open>journal_name\<close>, \<open>publication_year\<close>, \<open>keywords\<close> and \<open>abstract\<close>; a value is
  a tag or \<open>None\<close>.
\<close>

record tag_mapping =
  tm_title :: "string option"
  tm_author :: "string option"
  tm_journal_name :: "string option"
  tm_publication_year :: "string option"
  tm_keywords :: "string option"
  tm_abstract :: "string option"

text \<open>The dictionary that \<open>parse_ris_record\<close> returns.\<close>

record ris_record =
  title :: "string option"
  journal :: "string option"
  year :: "int option"
  abstract :: "string option"
  authors :: "string list"
  "keywords" :: "string list"

type_synonym tag_dict = "string option \<rightharpoonup> string list"

definition relevant_tags :: "tag_mapping \<Rightarrow> string option list" where
  \<comment> \<open>\<open>tag_mapping.values()\<close>\<close>
  "relevant_tags tm = [tm_title tm, tm_author tm, tm_journal_name tm,
     tm_publication_year tm, tm_keywords tm, tm_abstract tm]"

definition empty_tags :: "string option list \<Rightarrow> tag_dict" where
  \<comment> \<open>\<open>{tag: [] for tag in relevant_tags}\<close>\<close>
  "empty_tags rel = (\<lambda>k. if k \<in> set rel then Some [] else None)"

section \<open>Extraction of one record (parse\_ris\_record)\<close>

definition is_tag_line :: "string \<Rightarrow> bool" where
  \<comment> \<open>\<open>len(line) >= 6 and line[2:5] == "  -"\<close>\<close>
  "is_tag_line line \<longleftrightarrow> 6 \<le> length line \<and> take 3 (drop 2 line) = ''  -''"

definition process_line ::
  "string option list \<Rightarrow> tag_dict \<times> string option \<Rightarrow> string \<Rightarrow>
     py_error + tag_dict \<times> string option" where
  \<comment> \<open>the body of the loop over the lines of a record; the state is
      \<open>(tags, current_tag)\<close>\<close>
  "process_line rel st raw =
     (let tags = fst st; current_tag = snd st; line = strip raw in
      if line = [] then Inr (tags, current_tag)
      else if is_tag_line line then
        (let tag = take 2 line;
             content = strip (drop 6 line);
             current_tag' = (if Some tag \<in> set rel then Some tag else None) in
         if truthy current_tag' then
           (case tags current_tag' of
              None \<Rightarrow> Inl KeyError
            | Some vs \<Rightarrow> Inr (tags(current_tag' \<mapsto> vs @ [content]), current_tag'))
         else Inr (tags, current_tag'))
      else if truthy current_tag then
        (case tags current_tag of
           None \<Rightarrow> Inl KeyError
         | Some vs \<Rightarrow>
             if vs \<noteq> []
             then Inr (tags(current_tag \<mapsto> butlast vs @ [last vs @ '' '' @ line]),
                       current_tag)
             else Inr (tags, current_tag))
      else Inr (tags, current_tag))"

fun process_lines ::
  "string option list \<Rightarrow> tag_dict \<times> string option \<Rightarrow> string list \<Rightarrow>
     py_error + tag_dict \<times> string option" where
  "process_lines rel st [] = Inr st"
| "process_lines rel st (raw # rest) =
     (case process_line rel st raw of
        Inl e \<Rightarrow> Inl e
      | Inr st' \<Rightarrow> process_lines rel st' rest)"

definition is_digit :: "char \<Rightarrow> bool" where
  \<comment> \<open>\<open>\d\<close> below 256\<close>
  "is_digit c \<longleftrightarrow> 48 \<le> (of_char c :: nat) \<and> (of_char c :: nat) \<le> 57"

definition is_word :: "char \<Rightarrow> bool" where
  \<comment> \<open>\<open>\w\<close> below 256: the alphanumeric code points and the underscore\<close>
  "is_word c \<longleftrightarrow>
     (let n = (of_char c :: nat) in
      (48 \<le> n \<and> n \<le> 57) \<or> (65 \<le> n \<and> n \<le> 90) \<or> (97 \<le> n \<and> n \<le> 122) \<or> n = 95
      \<or> n \<in> {170, 178, 179, 181, 185, 186, 188, 189, 190}
      \<or> (192 \<le> n \<and> n \<le> 214) \<or> (216 \<le> n \<and> n \<le> 246) \<or> (248 \<le> n \<and> n \<le> 255))"

definition digits_value :: "string \<Rightarrow> int" where
  \<comment> \<open>\<open>int(s)\<close> on a string of ASCII digits\<close>
  "digits_value ds = fold (\<lambda>c n. 10 * n + (int (of_char c) - 48)) ds 0"

fun year_search :: "bool \<Rightarrow> string \<Rightarrow> int option" where
  \<comment> \<open>\<open>re.search(r'\b\d{4}\b', s)\<close>, the match converted by \<open>int\<close>; the flag tells
      whether the previous character is a word character\<close>
  "year_search prev [] = None"
| "year_search prev (c # cs) =
     (if \<not> prev \<and> 4 \<le> length (c # cs) \<and> list_all is_digit (take 4 (c # cs))
         \<and> (case drop 4 (c # cs) of [] \<Rightarrow> True | d # _ \<Rightarrow> \<not> is_word d)
      then Some (digits_value (take 4 (c # cs)))
      else year_search (is_word c) cs)"

definition tag_values :: "tag_dict \<Rightarrow> string option \<Rightarrow> string list" where
  \<comment> \<open>the list \<open>tags[t]\<close> where the guard \<open>t and tags.get(t)\<close> holds, else \<open>[]\<close>\<close>
  "tag_values tags t =
     (if truthy t then (case tags t of None \<Rightarrow> [] | Some vs \<Rightarrow> vs) else [])"

definition build_result :: "tag_mapping \<Rightarrow> tag_dict \<Rightarrow> ris_record" where
  "build_result tm tags =
     \<lparr> title = (case tag_values tags (tm_title tm) of [] \<Rightarrow> None | v # _ \<Rightarrow> Some v),
       journal = (case tag_values tags (tm_journal_name tm) of [] \<Rightarrow> None | v # _ \<Rightarrow> Some v),
       year = (case tag_values tags (tm_publication_year tm) of
                 [] \<Rightarrow> None | v # _ \<Rightarrow> year_search False v),
       abstract = (case tag_values tags (tm_abstract tm) of
                     [] \<Rightarrow> None | v # vs \<Rightarrow> Some (join '' '' (v # vs))),
       authors = map strip (tag_values tags (tm_author tm)),
       keywords = map strip (tag_values tags (tm_keywords tm)) \<rparr>"

definition parse_ris_record :: "string \<Rightarrow> tag_mapping \<Rightarrow> py_error + ris_record" where
  "parse_ris_record record_str tm =
     (let rel = relevant_tags tm in
      case process_lines rel (empty_tags rel, None) (splitlines record_str) of
        Inl e \<Rightarrow> Inl e
      | Inr st \<Rightarrow> Inr (build_result tm (fst st)))"

section \<open>Splitting the content into records (parse\_ris\_content)\<close>

definition is_end_marker :: "string \<Rightarrow> bool" where
  \<comment> \<open>\<open>line.startswith("ER") and ("  -" in line or line == "ER")\<close>\<close>
  "is_end_marker line \<longleftrightarrow>
     startswith line ''ER'' \<and> (contains ''  -'' line \<or> line = ''ER'')"

definition flush_record ::
  "tag_mapping \<Rightarrow> ris_record list \<Rightarrow> string list \<Rightarrow> py_error + ris_record list" where
  \<comment> \<open>the block under \<open>if current_record:\<close>: parse the chunk and keep the record
      only when it has a title\<close>
  "flush_record tm records current_record =
     (case parse_ris_record (join [CHR 0x0A] current_record) tm of
        Inl e \<Rightarrow> Inl e
      | Inr parsed_record \<Rightarrow>
          Inr (if truthy (title parsed_record) then records @ [parsed_record]
               else records))"

fun scan_lines ::
  "tag_mapping \<Rightarrow> ris_record list \<Rightarrow> string list \<Rightarrow> string list \<Rightarrow>
     py_error + ris_record list" where
  "scan_lines tm records current_record [] =
     (if current_record \<noteq> [] then flush_record tm records current_record
      else Inr records)"
| "scan_lines tm records current_record (raw # rest) =
     (let line = strip raw in
      if is_end_marker line then
        (if current_record \<noteq> [] then
           (case flush_record tm records current_record of
              Inl e \<Rightarrow> Inl e
            | Inr records' \<Rightarrow> scan_lines tm records' [] rest)
         else scan_lines tm records current_record rest)
      else if line \<noteq> [] then scan_lines tm records (current_record @ [line]) rest
      else scan_lines tm records current_record rest)"

definition parse_ris_content :: "string \<Rightarrow> tag_mapping \<Rightarrow> py_error + ris_record list" where
  "parse_ris_content content tm = scan_lines tm [] [] (splitlines content)"


section \<open>The relational store (utils/data\_base.py)\<close>

text \<open>
  The store is the SQLite database created by \<open>create_database\<close>: four dimension
  tables of rows \<open>(id, name)\<close> with a \<open>UNIQUE\<close> name, the table of articles and two
  link tables with a composite primary key. A cursor on an open connection is the value
  of the database; every statement returns the new value or the error it raises.
\<close>

record article =
  art_id :: nat
  art_title :: string
  art_journal_id :: "nat option"
  art_source_id :: "nat option"
  art_year :: "int option"
  art_abstract :: "string option"

type_synonym dim_table = "(nat \<times> string) list"

record database =
  tbl_sources :: dim_table
  tbl_journals :: dim_table
  tbl_authors :: dim_table
  tbl_keywords :: dim_table
  tbl_articles :: "article list"
  tbl_article_author :: "(nat \<times> nat) list"
  tbl_article_keyword :: "(nat \<times> nat) list"

definition next_rowid :: "nat list \<Rightarrow> nat" where
  \<comment> \<open>the rowid SQLite gives to a new row of an \<open>INTEGER PRIMARY KEY\<close> table: one
      more than the largest in use, and 1 in an empty table. The rowids of SQLite are
      signed 64-bit integers: this is the rule for a table whose largest rowid is below
      \<open>2^63 - 1\<close>, above which SQLite picks an unused rowid at random\<close>
  "next_rowid ids = Suc (fold max ids 0)"

definition select_id :: "dim_table \<Rightarrow> string \<Rightarrow> nat option" where
  \<comment> \<open>\<open>SELECT id FROM t WHERE name = ?\<close> followed by \<open>fetchone()\<close>\<close>
  "select_id rows n = map_option fst (find (\<lambda>r. snd r = n) rows)"

definition insert_name :: "dim_table \<Rightarrow> string \<Rightarrow> py_error + nat \<times> dim_table" where
  \<comment> \<open>\<open>INSERT INTO t (name) VALUES (?)\<close> and \<open>cursor.lastrowid\<close>; the name is
      \<open>UNIQUE\<close>\<close>
  "insert_name rows n =
     (if n \<in> snd ` set rows then Inl IntegrityError
      else let i = next_rowid (map fst rows) in Inr (i, rows @ [(i, n)]))"

definition get_or_create ::
  "dim_table \<Rightarrow> string option \<Rightarrow> py_error + nat option \<times> dim_table" where
  \<comment> \<open>the common body of the four \<open>get_or_create_*\<close> functions\<close>
  "get_or_create rows name =
     (case name of
        None \<Rightarrow> Inr (None, rows)
      | Some n \<Rightarrow>
          if n = [] then Inr (None, rows)
          else (case select_id rows n of
                  Some i \<Rightarrow> Inr (Some i, rows)
                | None \<Rightarrow>
                    (case insert_name rows n of
                       Inl e \<Rightarrow> Inl e
                     | Inr (i, rows') \<Rightarrow> Inr (Some i, rows'))))"

definition get_or_create_source ::
  "database \<Rightarrow> string \<Rightarrow> py_error + nat option \<times> database" where
  "get_or_create_source db source_name =
     (case get_or_create (tbl_sources db) (Some source_name) of
        Inl e \<Rightarrow> Inl e
      | Inr (i, rows) \<Rightarrow> Inr (i, db\<lparr>tbl_sources := rows\<rparr>))"

definition get_or_create_journal ::
  "database \<Rightarrow> string option \<Rightarrow> py_error + nat option \<times> database" where
  "get_or_create_journal db journal_name =
     (case get_or_create (tbl_journals db) journal_name of
        Inl e \<Rightarrow> Inl e
      | Inr (i, rows) \<Rightarrow> Inr (i, db\<lparr>tbl_journals := rows\<rparr>))"

definition get_or_create_author ::
  "database \<Rightarrow> string \<Rightarrow> py_error + nat option \<times> database" where
  "get_or_create_author db author_name =
     (case get_or_create (tbl_authors db) (Some author_name) of
        Inl e \<Rightarrow> Inl e
      | Inr (i, rows) \<Rightarrow> Inr (i, db\<lparr>tbl_authors := rows\<rparr>))"

definition get_or_create_keyword ::
  "database \<Rightarrow> string \<Rightarrow> py_error + nat option \<times> database" where
  "get_or_create_keyword db keyword_term =
     (case get_or_create (tbl_keywords db) (Some keyword_term) of
        Inl e \<Rightarrow> Inl e
      | Inr (i, rows) \<Rightarrow> Inr (i, db\<lparr>tbl_keywords := rows\<rparr>))"

definition fk_ok :: "nat option \<Rightarrow> nat list \<Rightarrow> bool" where
  \<comment> \<open>a foreign key is \<open>NULL\<close> or the id of a row of the parent table\<close>
  "fk_ok v ids = (case v of None \<Rightarrow> True | Some i \<Rightarrow> i \<in> set ids)"

definition sqlite_int :: "int option \<Rightarrow> bool" where
  \<comment> \<open>the values that \<open>sqlite3\<close> binds to a parameter of a statement: \<open>None\<close> as
      \<open>NULL\<close>, and a Python \<open>int\<close> as a signed 64-bit \<open>INTEGER\<close>\<close>
  "sqlite_int v =
     (case v of None \<Rightarrow> True | Some n \<Rightarrow> - (2 ^ 63) \<le> n \<and> n < 2 ^ 63)"

definition insert_article ::
  "database \<Rightarrow> string option \<Rightarrow> nat option \<Rightarrow> nat option \<Rightarrow> int option \<Rightarrow>
     string option \<Rightarrow> py_error + nat \<times> database" where
  \<comment> \<open>\<open>INSERT INTO articles (title, journal_id, source_id, year, abstract)\<close> and
      \<open>cursor.lastrowid\<close>: binding a year outside the 64-bit range raises
      \<open>OverflowError\<close> before the statement runs; the title is \<open>NOT NULL\<close>, the two
      ids are foreign keys\<close>
  "insert_article db t journal_id source_id y a =
     (if \<not> sqlite_int y then Inl OverflowError
      else
       (case t of
          None \<Rightarrow> Inl IntegrityError
        | Some t' \<Rightarrow>
            if fk_ok journal_id (map fst (tbl_journals db))
               \<and> fk_ok source_id (map fst (tbl_sources db))
            then let i = next_rowid (map art_id (tbl_articles db)) in
                 Inr (i, db\<lparr>tbl_articles := tbl_articles db @
                        [\<lparr>art_id = i, art_title = t', art_journal_id = journal_id,
                          art_source_id = source_id, art_year = y, art_abstract = a\<rparr>]\<rparr>)
            else Inl IntegrityError))"

definition insert_or_ignore ::
  "(nat \<times> nat) list \<Rightarrow> nat list \<Rightarrow> nat list \<Rightarrow> nat \<Rightarrow> nat option \<Rightarrow>
     py_error + (nat \<times> nat) list" where
  \<comment> \<open>\<open>INSERT OR IGNORE\<close> into a link table: a \<open>NULL\<close> or a pair already present is
      skipped, a pair without its parent rows violates a foreign key\<close>
  "insert_or_ignore links left_ids right_ids a b =
     (case b of
        None \<Rightarrow> Inr links
      | Some b' \<Rightarrow>
          if (a, b') \<in> set links then Inr links
          else if a \<in> set left_ids \<and> b' \<in> set right_ids then Inr (links @ [(a, b')])
          else Inl IntegrityError)"

fun store_authors :: "database \<Rightarrow> nat \<Rightarrow> string list \<Rightarrow> py_error + database" where
  "store_authors db article_id [] = Inr db"
| "store_authors db article_id (author_name # rest) =
     (if author_name \<noteq> [] then
        (case get_or_create_author db author_name of
           Inl e \<Rightarrow> Inl e
         | Inr (author_id, db') \<Rightarrow>
             (case insert_or_ignore (tbl_article_author db')
                     (map art_id (tbl_articles db')) (map fst (tbl_authors db'))
                     article_id author_id of
                Inl e \<Rightarrow> Inl e
              | Inr links \<Rightarrow>
                  store_authors (db'\<lparr>tbl_article_author := links\<rparr>) article_id rest))
      else store_authors db article_id rest)"

fun store_keywords :: "database \<Rightarrow> nat \<Rightarrow> string list \<Rightarrow> py_error + database" where
  "store_keywords db article_id [] = Inr db"
| "store_keywords db article_id (keyword_term # rest) =
     (if keyword_term \<noteq> [] then
        (case get_or_create_keyword db keyword_term of
           Inl e \<Rightarrow> Inl e
         | Inr (keyword_id, db') \<Rightarrow>
             (case insert_or_ignore (tbl_article_keyword db')
                     (map art_id (tbl_articles db')) (map fst (tbl_keywords db'))
                     article_id keyword_id of
                Inl e \<Rightarrow> Inl e
              | Inr links \<Rightarrow>
                  store_keywords (db'\<lparr>tbl_article_keyword := links\<rparr>) article_id rest))
      else store_keywords db article_id rest)"

definition store_record_in_database ::
  "database \<Rightarrow> ris_record \<Rightarrow> string \<Rightarrow> py_error + nat \<times> database" where
  "store_record_in_database db record source_name =
     (case get_or_create_source db source_name of
        Inl e \<Rightarrow> Inl e
      | Inr (source_id, db1) \<Rightarrow>
     (case get_or_create_journal db1 (journal record) of
        Inl e \<Rightarrow> Inl e
      | Inr (journal_id, db2) \<Rightarrow>
     (case insert_article db2 (title record) journal_id source_id (year record)
             (abstract record) of
        Inl e \<Rightarrow> Inl e
      | Inr (article_id, db3) \<Rightarrow>
     (case store_authors db3 article_id (authors record) of
        Inl e \<Rightarrow> Inl e
      | Inr db4 \<Rightarrow>
     (case store_keywords db4 article_id (keywords record) of
        Inl e \<Rightarrow> Inl e
      | Inr db5 \<Rightarrow> Inr (article_id, db5))))))"


section \<open>Duplicate classification (check\_duplicates in App\_/app.py)\<close>

text \<open>
  A row returned by the two duplicate queries is the tuple
  \<open>(title, source, year, id, abstract)\<close>; the id is the component at index 3.
\<close>

type_synonym match_row = "string \<times> string option \<times> int option \<times> nat \<times> string option"

definition dup_id :: "match_row \<Rightarrow> nat" where
  \<comment> \<open>\<open>dup[3]\<close>\<close>
  "dup_id dup = fst (snd (snd (snd dup)))"

definition select_row :: "database \<Rightarrow> article \<Rightarrow> match_row" where
  \<comment> \<open>the selected columns, with the name of the source from the \<open>LEFT JOIN\<close>\<close>
  "select_row db a =
     (art_title a,
      (case art_source_id a of None \<Rightarrow> None | Some i \<Rightarrow> map_of (tbl_sources db) i),
      art_year a, art_id a, art_abstract a)"

definition title_query :: "database \<Rightarrow> string \<Rightarrow> match_row list" where
  \<comment> \<open>\<open>WHERE LOWER(TRIM(a.title)) = ?\<close>\<close>
  "title_query db t =
     map (select_row db)
       (filter (\<lambda>a. sql_lower (sql_trim (art_title a)) = t) (tbl_articles db))"

definition abstract_query :: "database \<Rightarrow> string \<Rightarrow> match_row list" where
  \<comment> \<open>\<open>WHERE LOWER(TRIM(a.abstract)) = ? AND a.abstract IS NOT NULL\<close>\<close>
  "abstract_query db t =
     map (select_row db)
       (filter (\<lambda>a. case art_abstract a of
                       None \<Rightarrow> False
                     | Some x \<Rightarrow> sql_lower (sql_trim x) = t) (tbl_articles db))"

record duplicate_info =
  new_record :: ris_record
  source_name :: string
  title_duplicates :: "match_row list"
  abstract_duplicates :: "match_row list"
  duplicate_type :: "string list"

text \<open>The list to which the loop body appends, with what it appends.\<close>

datatype verdict =
    Unique ris_record
  | FullDuplicate duplicate_info
  | PartialDuplicate duplicate_info

definition normalized_title :: "ris_record \<Rightarrow> py_error + string" where
  \<comment> \<open>\<open>record.get('title', '').strip().lower()\<close>: \<open>None\<close> has no \<open>strip\<close>\<close>
  "normalized_title record =
     (case title record of None \<Rightarrow> Inl AttributeError | Some t \<Rightarrow> Inr (lower (strip t)))"

definition normalized_abstract :: "ris_record \<Rightarrow> string" where
  \<comment> \<open>\<open>record.get('abstract', '').strip().lower() if record.get('abstract') else ''\<close>\<close>
  "normalized_abstract record =
     (case abstract record of
        None \<Rightarrow> []
      | Some a \<Rightarrow> if a \<noteq> [] then lower (strip a) else [])"

definition find_title_duplicates :: "database \<Rightarrow> ris_record \<Rightarrow> py_error + match_row list" where
  "find_title_duplicates db record =
     (case normalized_title record of
        Inl e \<Rightarrow> Inl e
      | Inr t \<Rightarrow> Inr (title_query db t))"

definition find_abstract_duplicates :: "database \<Rightarrow> ris_record \<Rightarrow> match_row list" where
  \<comment> \<open>the abstract query runs only under \<open>if abstract:\<close>\<close>
  "find_abstract_duplicates db record =
     (let a = normalized_abstract record in
      if a \<noteq> [] then abstract_query db a else [])"

definition classify_record :: "database \<Rightarrow> ris_record \<Rightarrow> string \<Rightarrow> py_error + verdict" where
  \<comment> \<open>the body of the loop of \<open>check_duplicates\<close>\<close>
  "classify_record db record src =
     (case find_title_duplicates db record of
        Inl e \<Rightarrow> Inl e
      | Inr tds \<Rightarrow>
          (let ads = find_abstract_duplicates db record in
           if tds \<noteq> [] \<or> ads \<noteq> [] then
             (let info = \<lparr> new_record = record, source_name = src,
                            title_duplicates = tds, abstract_duplicates = ads,
                            duplicate_type =
                              (if tds \<noteq> [] then [''title''] else []) @
                              (if ads \<noteq> [] then [''abstract''] else []) \<rparr>;
                  has_both_title_and_abstract_match =
                    (if tds \<noteq> [] \<and> ads \<noteq> [] then
                       (let title_ids = set (map dup_id tds);
                            abstract_ids = set (map dup_id ads);
                            common_ids = title_ids \<inter> abstract_ids
                        in 0 < card common_ids)
                     else False)
              in if has_both_title_and_abstract_match
                 then Inr (FullDuplicate info)
                 else Inr (PartialDuplicate info))
           else Inr (Unique record)))"

fun check_loop ::
  "database \<Rightarrow> string \<Rightarrow> ris_record list \<times> duplicate_info list \<times> duplicate_info list \<Rightarrow>
     ris_record list \<Rightarrow>
     py_error + ris_record list \<times> duplicate_info list \<times> duplicate_info list" where
  "check_loop db src acc [] = Inr acc"
| "check_loop db src acc (record # rest) =
     (case classify_record db record src of
        Inl e \<Rightarrow> Inl e
      | Inr (Unique r) \<Rightarrow>
          check_loop db src (fst acc @ [r], fst (snd acc), snd (snd acc)) rest
      | Inr (FullDuplicate i) \<Rightarrow>
          check_loop db src (fst acc, fst (snd acc) @ [i], snd (snd acc)) rest
      | Inr (PartialDuplicate i) \<Rightarrow>
          check_loop db src (fst acc, fst (snd acc), snd (snd acc) @ [i]) rest)"

definition check_duplicates ::
  "database \<Rightarrow> ris_record list \<Rightarrow> string \<Rightarrow>
     py_error + ris_record list \<times> duplicate_info list \<times> duplicate_info list" where
  \<comment> \<open>returns \<open>(unique_records, full_duplicates, partial_duplicates)\<close>\<close>
  "check_duplicates db new_records src = check_loop db src ([], [], []) new_records"

definition is_unique :: "py_error + verdict \<Rightarrow> bool" where
  "is_unique v = (case v of Inr (Unique _) \<Rightarrow> True | _ \<Rightarrow> False)"

definition is_full :: "py_error + verdict \<Rightarrow> bool" where
  "is_full v = (case v of Inr (FullDuplicate _) \<Rightarrow> True | _ \<Rightarrow> False)"

definition is_partial :: "py_error + verdict \<Rightarrow> bool" where
  "is_partial v = (case v of Inr (PartialDuplicate _) \<Rightarrow> True | _ \<Rightarrow> False)"

section \<open>The ingestion pipeline (process\_uploaded\_file, process\_ris\_file)\<close>

text \<open>
  The records are stored inside one transaction: \<open>commit\<close> after the loop, \<open>rollback\<close>
  and re-raise on any exception. The outcome is the value returned or the error raised,
  paired with the committed database. The function that stores one record is a
  parameter of the loop, so that a failure of the storage engine itself (I/O, locking),
  which \<open>store_record_in_database\<close> above does not produce, is covered too; the
  functions of the source are the instances at \<open>store_record_in_database\<close>.
\<close>

type_synonym store_fn = "database \<Rightarrow> ris_record \<Rightarrow> string \<Rightarrow> py_error + nat \<times> database"

fun store_loop ::
  "store_fn \<Rightarrow> database \<Rightarrow> string \<Rightarrow> nat \<Rightarrow> ris_record list \<Rightarrow> py_error + nat \<times> database" where
  \<comment> \<open>\<open>for record in records: store(cursor, record, source_name); count += 1\<close>\<close>
  "store_loop store db src stored_count [] = Inr (stored_count, db)"
| "store_loop store db src stored_count (record # rest) =
     (case store db record src of
        Inl e \<Rightarrow> Inl e
      | Inr (article_id, db') \<Rightarrow> store_loop store db' src (stored_count + 1) rest)"

definition store_transaction ::
  "store_fn \<Rightarrow> database \<Rightarrow> string \<Rightarrow> ris_record list \<Rightarrow> (py_error + nat) \<times> database" where
  \<comment> \<open>the \<open>try\<close> block: the loop and \<open>conn.commit()\<close>, or \<open>conn.rollback()\<close> and
      \<open>raise\<close>\<close>
  "store_transaction store db src records =
     (case store_loop store db src 0 records of
        Inl e \<Rightarrow> (Inl e, db)
      | Inr (stored_count, db') \<Rightarrow> (Inr stored_count, db'))"

record report =
  total_records :: nat
  unique_stored :: nat
  full_duplicates_found :: nat
  partial_duplicates_found :: nat
  full_duplicates_info :: "duplicate_info list"
  partial_duplicates_info :: "duplicate_info list"
  report_tag_mapping :: tag_mapping

definition process_uploaded_file_with ::
  "store_fn \<Rightarrow> string \<Rightarrow> tag_mapping \<Rightarrow> string \<Rightarrow> database \<Rightarrow>
     (py_error + report) \<times> database" where
  \<comment> \<open>the tag mapping is the result of the external \<open>generate_tag_mapping\<close>\<close>
  "process_uploaded_file_with store content tm src db =
     (case parse_ris_content content tm of
        Inl e \<Rightarrow> (Inl e, db)
      | Inr records \<Rightarrow>
          (case check_duplicates db records src of
             Inl e \<Rightarrow> (Inl e, db)
           | Inr parts \<Rightarrow>
               (let unique_records = fst parts;
                    full_duplicates = fst (snd parts);
                    partial_duplicates = snd (snd parts)
                in case store_transaction store db src unique_records of
                     (Inl e, db') \<Rightarrow> (Inl e, db')
                   | (Inr stored_count, db') \<Rightarrow>
                       (Inr \<lparr> total_records = length records,
                              unique_stored = stored_count,
                              full_duplicates_found = length full_duplicates,
                              partial_duplicates_found = length partial_duplicates,
                              full_duplicates_info = full_duplicates,
                              partial_duplicates_info = partial_duplicates,
                              report_tag_mapping = tm \<rparr>, db'))))"

definition process_uploaded_file ::
  "string \<Rightarrow> tag_mapping \<Rightarrow> string \<Rightarrow> database \<Rightarrow> (py_error + report) \<times> database" where
  "process_uploaded_file = process_uploaded_file_with store_record_in_database"

definition process_ris_file_with ::
  "store_fn \<Rightarrow> string \<Rightarrow> string \<Rightarrow> tag_mapping \<Rightarrow> database \<Rightarrow>
     (py_error + nat) \<times> database" where
  \<comment> \<open>the content is what was read from the file; the result is \<open>processed_count\<close>\<close>
  "process_ris_file_with store content src tm db =
     (case parse_ris_content content tm of
        Inl e \<Rightarrow> (Inl e, db)
      | Inr records \<Rightarrow> store_transaction store db src records)"

definition process_ris_file ::
  "string \<Rightarrow> string \<Rightarrow> tag_mapping \<Rightarrow> database \<Rightarrow> (py_error + nat) \<times> database" where
  "process_ris_file = process_ris_file_with store_record_in_database"


section \<open>Example data\<close>

definition empty_db :: database where
  "empty_db = \<lparr> tbl_sources = [], tbl_journals = [], tbl_authors = [], tbl_keywords = [],
     tbl_articles = [], tbl_article_author = [], tbl_article_keyword = [] \<rparr>"

definition example_mapping :: tag_mapping where
  "example_mapping = \<lparr> tm_title = Some ''TI'', tm_author = Some ''AU'',
     tm_journal_name = None, tm_publication_year = Some ''PY'', tm_keywords = None,
     tm_abstract = Some ''AB'' \<rparr>"

definition two_articles_db :: database where
  \<comment> \<open>two stored articles of one source\<close>
  "two_articles_db = \<lparr> tbl_sources = [(1, ''Scopus'')], tbl_journals = [], tbl_authors = [],
     tbl_keywords = [],
     tbl_articles =
       [\<lparr>art_id = 1, art_title = ''  Deep Learning  '', art_journal_id = None,
          art_source_id = Some 1, art_year = None, art_abstract = Some ''A study of''\<rparr>,
        \<lparr>art_id = 2, art_title = ''Other'', art_journal_id = None,
          art_source_id = Some 1, art_year = None, art_abstract = Some ''Text two''\<rparr>],
     tbl_article_author = [], tbl_article_keyword = [] \<rparr>"

definition simple_record :: "string \<Rightarrow> string option \<Rightarrow> ris_record" where
  \<comment> \<open>a record with a title and possibly an abstract, and nothing else\<close>
  "simple_record t a = \<lparr> title = Some t, journal = None, year = None, abstract = a,
     authors = [], keywords = [] \<rparr>"

definition ecole :: string where
  \<comment> \<open>the word whose first letter is U+00C9, capital E with acute accent\<close>
  "ecole = CHR 0xC9 # ''cole''"

definition ecole_db :: database where
  \<comment> \<open>the store after that title has been stored once\<close>
  "ecole_db = \<lparr> tbl_sources = [(1, ''Scopus'')], tbl_journals = [], tbl_authors = [],
     tbl_keywords = [],
     tbl_articles =
       [\<lparr>art_id = 1, art_title = ecole, art_journal_id = None,
          art_source_id = Some 1, art_year = None, art_abstract = None\<rparr>],
     tbl_article_author = [], tbl_article_keyword = [] \<rparr>"

definition ecole_content :: string where
  "ecole_content = ''TI  - '' @ ecole @ [CHR 0x0A] @ ''ER  - ''"

definition erp_content :: string where
  \<comment> \<open>a title continued on a second line that begins with the letters ER\<close>
  "erp_content = ''TI  - Adoption of'' @ [CHR 0x0A] @ ''ERP systems  - a survey''
     @ [CHR 0x0A] @ ''AB  - We study'' @ [CHR 0x0A] @ ''ER  - ''"

definition three_titles_content :: string where
  "three_titles_content = ''TI  - First'' @ [CHR 0x0A] @ ''ER  - '' @ [CHR 0x0A]
     @ ''TI  - Second'' @ [CHR 0x0A] @ ''ER  - '' @ [CHR 0x0A]
     @ ''TI  - Third'' @ [CHR 0x0A] @ ''ER  - ''"

definition failing_store :: store_fn where
  \<comment> \<open>a store whose insert fails for the record titled Second\<close>
  "failing_store db record src =
     (if title record = Some ''Second'' then Inl OperationalError
      else store_record_in_database db record src)"

definition stray_content :: string where
  \<comment> \<open>a chunk without a title, then a record with one\<close>
  "stray_content = ''AB  - stray text'' @ [CHR 0x0A] @ ''ER  - '' @ [CHR 0x0A]
     @ ''TI  - Hello'' @ [CHR 0x0A] @ ''ER  - ''"

section \<open>The duplicate verdict\<close>

lemma classify_record_cases:
  assumes "title r = Some t"
  shows "classify_record db r src =
     (let tds = title_query db (lower (strip t)); ads = find_abstract_duplicates db r;
          info = \<lparr> new_record = r, source_name = src, title_duplicates = tds,
                   abstract_duplicates = ads,
                   duplicate_type = (if tds \<noteq> [] then [''title''] else []) @
                                    (if ads \<noteq> [] then [''abstract''] else []) \<rparr>
      in if tds = [] \<and> ads = [] then Inr (Unique r)
         else if set (map dup_id tds) \<inter> set (map dup_id ads) \<noteq> {}
              then Inr (FullDuplicate info) else Inr (PartialDuplicate info))"
  using assms
  by (auto simp: classify_record_def find_title_duplicates_def normalized_title_def Let_def
      card_gt_0_iff)

text \<open>
  C1. For a record with a title, the classifier puts the record among the full
  duplicates if and only if some stored id is both in the title matches and in the
  abstract matches; when both kinds of matches exist and no id is common, the record is
  a partial duplicate.
\<close>

theorem full_duplicate_iff_common_id:
  assumes "title r = Some t"
  shows "((\<exists>i. classify_record db r src = Inr (FullDuplicate i)) \<longleftrightarrow>
            set (map dup_id (title_query db (lower (strip t))))
              \<inter> set (map dup_id (find_abstract_duplicates db r)) \<noteq> {})
       \<and> (title_query db (lower (strip t)) \<noteq> [] \<and> find_abstract_duplicates db r \<noteq> []
            \<and> set (map dup_id (title_query db (lower (strip t))))
                \<inter> set (map dup_id (find_abstract_duplicates db r)) = {}
          \<longrightarrow> (\<exists>i. classify_record db r src = Inr (PartialDuplicate i)))"
  unfolding classify_record_cases [OF assms] Let_def
  by auto

theorem full_duplicate_iff_common_id_witness:
  "title (simple_record ''Deep learning'' (Some ''text two'')) = Some ''Deep learning''
   \<and> (\<exists>i. classify_record two_articles_db
             (simple_record ''Deep learning'' (Some ''text two'')) ''PubMed''
           = Inr (PartialDuplicate i))
   \<and> (\<exists>i. classify_record two_articles_db
             (simple_record ''Deep learning'' (Some ''A STUDY OF '')) ''PubMed''
           = Inr (FullDuplicate i))"
proof -
  let ?p = "simple_record ''Deep learning'' (Some ''text two'')"
  let ?f = "simple_record ''Deep learning'' (Some ''A STUDY OF '')"
  have hp: "title ?p = Some ''Deep learning''" and hf: "title ?f = Some ''Deep learning''"
    by (simp_all add: simple_record_def)
  have p: "title_query two_articles_db (lower (strip ''Deep learning'')) \<noteq> []
      \<and> find_abstract_duplicates two_articles_db ?p \<noteq> []
      \<and> set (map dup_id (title_query two_articles_db (lower (strip ''Deep learning''))))
          \<inter> set (map dup_id (find_abstract_duplicates two_articles_db ?p)) = {}"
    by code_simp
  have f: "set (map dup_id (title_query two_articles_db (lower (strip ''Deep learning''))))
          \<inter> set (map dup_id (find_abstract_duplicates two_articles_db ?f)) \<noteq> {}"
    by code_simp
  from full_duplicate_iff_common_id [OF hp, of two_articles_db "''PubMed''"] p
       full_duplicate_iff_common_id [OF hf, of two_articles_db "''PubMed''"] f hp
  show ?thesis by blast
qed

text \<open>
  C4. For a record with a title, the classifier puts the record among the unique
  records if and only if there is no title match and no abstract match; a record whose
  abstract is absent or empty has no abstract match, since the query is not run for it.
\<close>

theorem unique_iff_no_matches:
  assumes "title r = Some t"
  shows "((\<exists>x. classify_record db r src = Inr (Unique x)) \<longleftrightarrow>
            title_query db (lower (strip t)) = [] \<and> find_abstract_duplicates db r = [])
       \<and> (classify_record db r src = Inr (Unique r) \<longleftrightarrow>
            title_query db (lower (strip t)) = [] \<and> find_abstract_duplicates db r = [])
       \<and> (\<not> truthy (abstract r) \<longrightarrow> find_abstract_duplicates db r = [])"
  unfolding classify_record_cases [OF assms] Let_def
  by (auto simp: find_abstract_duplicates_def normalized_abstract_def truthy_def
      split: option.splits)

theorem unique_iff_no_matches_witness:
  "title (simple_record ''A new title'' None) = Some ''A new title''
   \<and> \<not> truthy (abstract (simple_record ''A new title'' None))
   \<and> find_abstract_duplicates two_articles_db (simple_record ''A new title'' None) = []
   \<and> classify_record two_articles_db (simple_record ''A new title'' None) ''PubMed''
       = Inr (Unique (simple_record ''A new title'' None))"
proof -
  let ?r = "simple_record ''A new title'' None"
  have h: "title ?r = Some ''A new title''" and a: "\<not> truthy (abstract ?r)"
    by (simp_all add: simple_record_def truthy_def)
  have q: "title_query two_articles_db (lower (strip ''A new title'')) = []"
    by code_simp
  from unique_iff_no_matches [OF h, of two_articles_db "''PubMed''"] a q h
  show ?thesis by blast
qed

section \<open>The three lists of check\_duplicates\<close>

lemma classify_record_shape:
  assumes "title r = Some t"
  shows "classify_record db r src = Inr (Unique r)
       \<or> (\<exists>i. classify_record db r src = Inr (FullDuplicate i) \<and> new_record i = r)
       \<or> (\<exists>i. classify_record db r src = Inr (PartialDuplicate i) \<and> new_record i = r)"
  unfolding classify_record_cases [OF assms] Let_def by simp

lemma check_loop_partition:
  assumes "\<forall>r \<in> set rs. title r \<noteq> None"
  shows "\<exists>f' p'. check_loop db src (u0, f0, p0) rs =
            Inr (u0 @ filter (\<lambda>r. is_unique (classify_record db r src)) rs, f0 @ f', p0 @ p')
          \<and> map new_record f' = filter (\<lambda>r. is_full (classify_record db r src)) rs
          \<and> map new_record p' = filter (\<lambda>r. is_partial (classify_record db r src)) rs"
  using assms
proof (induction rs arbitrary: u0 f0 p0)
  case Nil
  then show ?case by simp
next
  case (Cons r rs)
  then obtain t where t: "title r = Some t" by auto
  from Cons.prems have rest: "\<forall>r \<in> set rs. title r \<noteq> None" by simp
  from classify_record_shape [OF t, of db src]
  consider (u) "classify_record db r src = Inr (Unique r)"
    | (f) i where "classify_record db r src = Inr (FullDuplicate i)" "new_record i = r"
    | (p) i where "classify_record db r src = Inr (PartialDuplicate i)" "new_record i = r"
    by blast
  then show ?case
  proof cases
    case u
    from Cons.IH [OF rest, of "u0 @ [r]" f0 p0] u show ?thesis
      by (auto simp: is_unique_def is_full_def is_partial_def)
  next
    case f
    from Cons.IH [OF rest, of u0 "f0 @ [i]" p0] obtain f' p' where
      "check_loop db src (u0, f0 @ [i], p0) rs =
         Inr (u0 @ filter (\<lambda>r. is_unique (classify_record db r src)) rs, (f0 @ [i]) @ f', p0 @ p')"
      "map new_record f' = filter (\<lambda>r. is_full (classify_record db r src)) rs"
      "map new_record p' = filter (\<lambda>r. is_partial (classify_record db r src)) rs"
      by blast
    with f show ?thesis
      by (intro exI [of _ "i # f'"] exI [of _ p'])
         (simp add: is_unique_def is_full_def is_partial_def)
  next
    case p
    from Cons.IH [OF rest, of u0 f0 "p0 @ [i]"] obtain f' p' where
      "check_loop db src (u0, f0, p0 @ [i]) rs =
         Inr (u0 @ filter (\<lambda>r. is_unique (classify_record db r src)) rs, f0 @ f', (p0 @ [i]) @ p')"
      "map new_record f' = filter (\<lambda>r. is_full (classify_record db r src)) rs"
      "map new_record p' = filter (\<lambda>r. is_partial (classify_record db r src)) rs"
      by blast
    with p show ?thesis
      by (intro exI [of _ f'] exI [of _ "i # p'"])
         (simp add: is_unique_def is_full_def is_partial_def)
  qed
qed

lemma verdict_exclusive:
  "(is_unique v \<longrightarrow> \<not> is_full v \<and> \<not> is_partial v) \<and> (is_full v \<longrightarrow> \<not> is_partial v)"
  by (auto simp: is_unique_def is_full_def is_partial_def split: sum.splits verdict.splits)

lemma verdict_total:
  assumes "title r = Some t"
  shows "is_unique (classify_record db r src) \<or> is_full (classify_record db r src)
       \<or> is_partial (classify_record db r src)"
  using classify_record_shape [OF assms, of db src]
  by (auto simp: is_unique_def is_full_def is_partial_def)

lemma three_filters_length:
  assumes "\<forall>r \<in> set rs. title r \<noteq> None"
  shows "length (filter (\<lambda>r. is_unique (classify_record db r src)) rs)
       + length (filter (\<lambda>r. is_full (classify_record db r src)) rs)
       + length (filter (\<lambda>r. is_partial (classify_record db r src)) rs) = length rs"
  using assms
proof (induction rs)
  case Nil
  then show ?case by simp
next
  case (Cons r rs)
  then obtain t where t: "title r = Some t" by auto
  from verdict_total [OF t, of db src] verdict_exclusive [of "classify_record db r src"] Cons
  show ?case by auto
qed

text \<open>
  C9. For a list of records that all have a title, \<open>check_duplicates\<close> returns three
  lists that partition the input: each is the sublist of the input records with one
  verdict, in the order of the input; the lengths add up to the length of the input, and
  no record is in two of the lists.
\<close>

theorem check_duplicates_partition:
  assumes "\<forall>r \<in> set rs. title r \<noteq> None"
  shows "\<exists>u f p. check_duplicates db rs src = Inr (u, f, p)
     \<and> u = filter (\<lambda>r. is_unique (classify_record db r src)) rs
     \<and> map new_record f = filter (\<lambda>r. is_full (classify_record db r src)) rs
     \<and> map new_record p = filter (\<lambda>r. is_partial (classify_record db r src)) rs
     \<and> length u + length f + length p = length rs
     \<and> set u \<union> new_record ` set f \<union> new_record ` set p = set rs
     \<and> set u \<inter> new_record ` set f = {}
     \<and> set u \<inter> new_record ` set p = {}
     \<and> new_record ` set f \<inter> new_record ` set p = {}"
proof -
  from check_loop_partition [OF assms, of db src "[]" "[]" "[]"] obtain f p where
    c: "check_duplicates db rs src =
          Inr (filter (\<lambda>r. is_unique (classify_record db r src)) rs, f, p)"
    and f: "map new_record f = filter (\<lambda>r. is_full (classify_record db r src)) rs"
    and p: "map new_record p = filter (\<lambda>r. is_partial (classify_record db r src)) rs"
    by (auto simp: check_duplicates_def)
  have sf: "new_record ` set f = {r \<in> set rs. is_full (classify_record db r src)}"
    using arg_cong [OF f, of set] by simp
  have sp: "new_record ` set p = {r \<in> set rs. is_partial (classify_record db r src)}"
    using arg_cong [OF p, of set] by simp
  have len: "length (filter (\<lambda>r. is_unique (classify_record db r src)) rs)
       + length f + length p = length rs"
    using three_filters_length [OF assms, of db src]
      arg_cong [OF f, of length] arg_cong [OF p, of length] by simp
  have cover: "set (filter (\<lambda>r. is_unique (classify_record db r src)) rs)
      \<union> new_record ` set f \<union> new_record ` set p = set rs"
  proof -
    have "\<And>r. r \<in> set rs \<Longrightarrow> is_unique (classify_record db r src)
        \<or> is_full (classify_record db r src) \<or> is_partial (classify_record db r src)"
      using assms verdict_total by fastforce
    then show ?thesis unfolding sf sp by auto
  qed
  have disj: "set (filter (\<lambda>r. is_unique (classify_record db r src)) rs) \<inter> new_record ` set f = {}"
    "set (filter (\<lambda>r. is_unique (classify_record db r src)) rs) \<inter> new_record ` set p = {}"
    "new_record ` set f \<inter> new_record ` set p = {}"
    unfolding sf sp using verdict_exclusive by auto
  from c f p len cover disj show ?thesis by blast
qed

theorem check_duplicates_partition_witness:
  "\<exists>u f p. check_duplicates two_articles_db
       [simple_record ''A new title'' None,
        simple_record ''DEEP LEARNING'' (Some ''a study of''),
        simple_record ''Deep learning'' (Some ''text two'')] ''PubMed'' = Inr (u, f, p)
     \<and> u = [simple_record ''A new title'' None]
     \<and> map new_record f = [simple_record ''DEEP LEARNING'' (Some ''a study of'')]
     \<and> map new_record p = [simple_record ''Deep learning'' (Some ''text two'')]
     \<and> length u + length f + length p = 3"
proof -
  define r1 where "r1 = simple_record ''A new title'' None"
  define r2 where "r2 = simple_record ''DEEP LEARNING'' (Some ''a study of'')"
  define r3 where "r3 = simple_record ''Deep learning'' (Some ''text two'')"
  define src where "src = ''PubMed''"
  have h: "\<forall>r \<in> set [r1, r2, r3]. title r \<noteq> None"
    by (simp add: r1_def r2_def r3_def simple_record_def)
  have u: "filter (\<lambda>r. is_unique (classify_record two_articles_db r src)) [r1, r2, r3] = [r1]"
    unfolding r1_def r2_def r3_def src_def by code_simp
  have f: "filter (\<lambda>r. is_full (classify_record two_articles_db r src)) [r1, r2, r3] = [r2]"
    unfolding r1_def r2_def r3_def src_def by code_simp
  have p: "filter (\<lambda>r. is_partial (classify_record two_articles_db r src)) [r1, r2, r3] = [r3]"
    unfolding r1_def r2_def r3_def src_def by code_simp
  have "\<exists>u f p. check_duplicates two_articles_db [r1, r2, r3] src = Inr (u, f, p)
     \<and> u = [r1] \<and> map new_record f = [r2] \<and> map new_record p = [r3]
     \<and> length u + length f + length p = 3"
    using check_duplicates_partition [OF h, of two_articles_db src]
    unfolding u f p by auto
  then show ?thesis
    unfolding r1_def r2_def r3_def src_def .
qed

section \<open>Normalisation of the two sides of a comparison\<close>

text \<open>
  C5. The incoming value is normalised by Python (\<open>strip\<close>, \<open>lower\<close>) and the stored
  value by SQLite (\<open>TRIM\<close>, \<open>LOWER\<close>). The two agree on the title of the specification's
  example, stored with spaces around it and looked up in capitals. They differ on a
  capital letter outside ASCII: a title beginning with U+00C9 that has been stored is not
  matched by the very same title, so that uploading one file twice stores its record
  twice and reports no duplicate.
\<close>

theorem non_ascii_title_not_matched:
  "map dup_id (title_query two_articles_db (lower (strip ''DEEP LEARNING''))) = [1]
   \<and> lower (strip ecole) = lower (strip (art_title (hd (tbl_articles ecole_db))))
   \<and> title_query ecole_db (lower (strip ecole)) = []
   \<and> classify_record ecole_db (simple_record ecole None) ''Scopus''
       = Inr (Unique (simple_record ecole None))
   \<and> fst (process_uploaded_file ecole_content example_mapping ''Scopus'' empty_db)
       = Inr \<lparr> total_records = 1, unique_stored = 1, full_duplicates_found = 0,
               partial_duplicates_found = 0, full_duplicates_info = [],
               partial_duplicates_info = [], report_tag_mapping = example_mapping \<rparr>
   \<and> snd (process_uploaded_file ecole_content example_mapping ''Scopus'' empty_db) = ecole_db
   \<and> fst (process_uploaded_file ecole_content example_mapping ''Scopus'' ecole_db)
       = Inr \<lparr> total_records = 1, unique_stored = 1, full_duplicates_found = 0,
               partial_duplicates_found = 0, full_duplicates_info = [],
               partial_duplicates_info = [], report_tag_mapping = example_mapping \<rparr>"
  by code_simp

theorem non_ascii_title_not_matched_witness:
  "title_query ecole_db (lower (strip ecole)) = []
   \<and> classify_record ecole_db (simple_record ecole None) ''Scopus''
       = Inr (Unique (simple_record ecole None))"
  using non_ascii_title_not_matched by blast

section \<open>The end-of-record marker\<close>

text \<open>
  C2. A line is taken as the end of a record when it starts with \<open>ER\<close> and contains
  the separator anywhere, not only right after the code. The second line of a title,
  beginning with the word ERP and containing the separator further on, ends the record:
  the title loses its continuation, and the abstract that follows lands in a chunk
  without a title, which is dropped.
\<close>

theorem end_marker_without_separator_after_code:
  "is_end_marker (strip ''ERP systems  - a survey'')
   \<and> \<not> startswith (strip ''ERP systems  - a survey'') ''ER  -''
   \<and> strip ''ERP systems  - a survey'' \<noteq> ''ER''
   \<and> parse_ris_content erp_content example_mapping = Inr [simple_record ''Adoption of'' None]"
  by code_simp

theorem end_marker_without_separator_after_code_witness:
  "is_end_marker (strip ''ERP systems  - a survey'')
   \<and> parse_ris_content erp_content example_mapping = Inr [simple_record ''Adoption of'' None]"
  using end_marker_without_separator_after_code by blast

section \<open>Atomicity of the batch of inserts\<close>

lemma store_loop_append:
  "store_loop store db src k (pre @ rest) =
     (case store_loop store db src k pre of
        Inl e \<Rightarrow> Inl e
      | Inr (n, db1) \<Rightarrow> store_loop store db1 src n rest)"
  by (induction pre arbitrary: db k) (auto split: sum.splits)

lemma store_transaction_failure:
  assumes "recs = pre @ r # post"
      and "store_loop store db src 0 pre = Inr (n, db1)"
      and "store db1 r src = Inl e"
  shows "store_transaction store db src recs = (Inl e, db)"
  using assms by (simp add: store_transaction_def store_loop_append)

text \<open>
C3. If the insert of one of the records to store fails, after any number of records
  stored before it, the transaction is rolled back: the outcome is the error, and the
  committed database is the one from before the batch, so that no record of the batch
  is persisted and no report is returned. This holds for the \<open>try\<close> block on its own,
  for \<open>process_uploaded_file\<close> (where the batch is the unique partition) and for
  \<open>process_ris_file\<close>, whatever the function that stores one record.
\<close>

theorem failed_insert_rolls_back:
  assumes "recs = pre @ r # post"
      and "store_loop store db src 0 pre = Inr (n, db1)"
      and "store db1 r src = Inl e"
  shows "store_transaction store db src recs = (Inl e, db)
       \<and> (parse_ris_content content tm = Inr records
            \<and> check_duplicates db records src = Inr (recs, fs, ps)
          \<longrightarrow> process_uploaded_file_with store content tm src db = (Inl e, db))
       \<and> (parse_ris_content content tm = Inr recs
          \<longrightarrow> process_ris_file_with store content src tm db = (Inl e, db))"
  using store_transaction_failure [OF assms]
  by (simp add: process_uploaded_file_with_def process_ris_file_with_def)

theorem failed_insert_rolls_back_witness:
  "process_uploaded_file_with failing_store three_titles_content example_mapping ''Scopus''
     empty_db = (Inl OperationalError, empty_db)"
proof -
  define r1 where "r1 = simple_record ''First'' None"
  define r2 where "r2 = simple_record ''Second'' None"
  define r3 where "r3 = simple_record ''Third'' None"
  define src where "src = ''Scopus''"
  define db1 where "db1 = \<lparr> tbl_sources = [(1, ''Scopus'')], tbl_journals = [],
     tbl_authors = [], tbl_keywords = [],
     tbl_articles = [\<lparr>art_id = 1, art_title = ''First'', art_journal_id = None,
        art_source_id = Some 1, art_year = None, art_abstract = None\<rparr>],
     tbl_article_author = [], tbl_article_keyword = [] \<rparr>"
  have split: "[r1, r2, r3] = [r1] @ r2 # [r3]" by simp
  have pre: "store_loop failing_store empty_db src 0 [r1] = Inr (1, db1)"
    unfolding r1_def src_def db1_def by code_simp
  have fail: "failing_store db1 r2 src = Inl OperationalError"
    by (simp add: failing_store_def r2_def simple_record_def)
  have parse: "parse_ris_content three_titles_content example_mapping = Inr [r1, r2, r3]"
    unfolding r1_def r2_def r3_def by code_simp
  have check: "check_duplicates empty_db [r1, r2, r3] src = Inr ([r1, r2, r3], [], [])"
    unfolding r1_def r2_def r3_def src_def by code_simp
  from failed_insert_rolls_back [OF split pre fail, of three_titles_content example_mapping
      "[r1, r2, r3]" "[]" "[]"] parse check
  have "process_uploaded_file_with failing_store three_titles_content example_mapping src
     empty_db = (Inl OperationalError, empty_db)"
    by simp
  then show ?thesis unfolding src_def .
qed

section \<open>Every parsed record has a title\<close>

lemma process_line_ok:
  assumes "\<forall>k \<in> set rel. tags k \<noteq> None" and "cur = None \<or> cur \<in> set rel"
  shows "\<exists>tags' cur'. process_line rel (tags, cur) raw = Inr (tags', cur')
           \<and> (\<forall>k \<in> set rel. tags' k \<noteq> None) \<and> (cur' = None \<or> cur' \<in> set rel)"
proof -
  have cur: "truthy cur \<Longrightarrow> tags cur \<noteq> None"
    using assms by (auto simp: truthy_def)
  show ?thesis
    using assms cur
    by (auto simp: process_line_def Let_def truthy_def split: option.splits)
qed

lemma process_lines_ok:
  assumes "\<forall>k \<in> set rel. tags k \<noteq> None" and "cur = None \<or> cur \<in> set rel"
  shows "\<exists>st. process_lines rel (tags, cur) ls = Inr st"
  using assms
proof (induction ls arbitrary: tags cur)
  case Nil
  then show ?case by simp
next
  case (Cons l ls)
  from process_line_ok [OF Cons.prems, of l] obtain tags' cur' where
    step: "process_line rel (tags, cur) l = Inr (tags', cur')"
    and inv: "\<forall>k \<in> set rel. tags' k \<noteq> None" "cur' = None \<or> cur' \<in> set rel"
    by blast
  from Cons.IH [OF inv] step show ?case by simp
qed

lemma parse_ris_record_ok: "\<exists>r. parse_ris_record record_str tm = Inr r"
proof -
  have "\<forall>k \<in> set (relevant_tags tm). empty_tags (relevant_tags tm) k \<noteq> None"
    by (simp add: empty_tags_def)
  from process_lines_ok [OF this, of None "splitlines record_str"]
  show ?thesis by (auto simp: parse_ris_record_def Let_def)
qed

lemma flush_record_ok:
  assumes "\<forall>r \<in> set records. truthy (title r)"
  shows "\<exists>rs. flush_record tm records current_record = Inr rs
           \<and> (\<forall>r \<in> set rs. truthy (title r))"
  using assms parse_ris_record_ok [of "join [CHR 0x0A] current_record" tm]
  by (auto simp: flush_record_def)

lemma scan_lines_ok:
  assumes "\<forall>r \<in> set records. truthy (title r)"
  shows "\<exists>rs. scan_lines tm records current_record ls = Inr rs
           \<and> (\<forall>r \<in> set rs. truthy (title r))"
  using assms
proof (induction ls arbitrary: records current_record)
  case Nil
  then show ?case using flush_record_ok [of records tm current_record] by simp
next
  case (Cons l ls)
  show ?case
  proof (cases "is_end_marker (strip l) \<and> current_record \<noteq> []")
    case True
    from flush_record_ok [OF Cons.prems, of tm current_record] obtain rs where
      f: "flush_record tm records current_record = Inr rs" and t: "\<forall>r \<in> set rs. truthy (title r)"
      by blast
    from Cons.IH [OF t, of "[]"] f True show ?thesis by (simp add: Let_def)
  next
    case False
    then show ?thesis
      using Cons.IH [OF Cons.prems] by (auto simp: Let_def)
  qed
qed

text \<open>
C8. Parsing never raises, and every record it returns has a title that is present
  and not empty; a chunk whose parsed record has no title leaves the list of records as
  it was.
\<close>

theorem parsed_records_have_title:
  "(\<exists>rs. parse_ris_content content tm = Inr rs
      \<and> (\<forall>r \<in> set rs. \<exists>t. title r = Some t \<and> t \<noteq> []))
   \<and> (\<forall>parsed. parse_ris_record (join [CHR 0x0A] chunk) tm = Inr parsed
          \<and> \<not> truthy (title parsed)
        \<longrightarrow> flush_record tm records chunk = Inr records)"
proof -
  from scan_lines_ok [of "[]" tm "[]" "splitlines content"]
  have "\<exists>rs. parse_ris_content content tm = Inr rs
      \<and> (\<forall>r \<in> set rs. \<exists>t. title r = Some t \<and> t \<noteq> [])"
    by (auto simp: parse_ris_content_def truthy_def split: option.splits)
  then show ?thesis
    by (simp add: flush_record_def)
qed

theorem parsed_records_have_title_witness:
  "parse_ris_content stray_content example_mapping = Inr [simple_record ''Hello'' None]
   \<and> (\<exists>t. title (simple_record ''Hello'' None) = Some t \<and> t \<noteq> [])"
proof -
  have p: "parse_ris_content stray_content example_mapping = Inr [simple_record ''Hello'' None]"
    by code_simp
  from parsed_records_have_title [of stray_content example_mapping] p
  show ?thesis by auto
qed

section \<open>Continuation lines\<close>

lemma process_line_tracked_tag:
  assumes "is_tag_line (strip tagl)"
      and "Some (take 2 (strip tagl)) \<in> set rel"
      and "tags (Some (take 2 (strip tagl))) = Some vs"
  shows "process_line rel (tags, cur) tagl =
           Inr (tags(Some (take 2 (strip tagl)) \<mapsto> vs @ [strip (drop 6 (strip tagl))]),
                Some (take 2 (strip tagl)))"
proof -
  from assms(1) have len: "6 \<le> length (strip tagl)" by (simp add: is_tag_line_def)
  then have "strip tagl \<noteq> []" and "take 2 (strip tagl) \<noteq> []" by auto
  with assms show ?thesis
    by (simp add: process_line_def Let_def truthy_def)
qed

lemma process_line_continuation:
  assumes "strip contl \<noteq> []" and "\<not> is_tag_line (strip contl)"
      and "tags (Some t) = Some (vs @ [v])" and "t \<noteq> []"
  shows "process_line rel (tags, Some t) contl =
           Inr (tags(Some t \<mapsto> vs @ [v @ '' '' @ strip contl]), Some t)"
  using assms by (simp add: process_line_def Let_def truthy_def)

lemma two_lines_of_abstract:
  "splitlines (''AB  - Part one'' @ [CHR 0x0A] @ ''of the abstract'')
     = [''AB  - Part one'', ''of the abstract'']
   \<and> strip ''AB  - Part one'' = ''AB  - Part one''
   \<and> strip ''of the abstract'' = ''of the abstract''
   \<and> is_tag_line ''AB  - Part one'' \<and> \<not> is_tag_line ''of the abstract''
   \<and> strip (drop 6 ''AB  - Part one'') = ''Part one''"
  by code_simp

text \<open>
C6. When a line with a tracked tag is followed by a line that is not empty and is
  not a tag line, the second line is appended, after one space, to the value that the
  first line added for its tag: the list of values of the tag gains one element, not
  two. Under any mapping whose abstract tag is \<open>AB\<close>, the lines \<open>AB  - Part one\<close>
  and \<open>of the abstract\<close> yield the abstract \<open>Part one of the abstract\<close>.
\<close>

theorem continuation_line_appends_to_last_value:
  assumes "is_tag_line (strip tagl)"
      and "Some (take 2 (strip tagl)) \<in> set rel"
      and "tags (Some (take 2 (strip tagl))) = Some vs"
      and "strip contl \<noteq> []" and "\<not> is_tag_line (strip contl)"
  shows "process_lines rel (tags, cur) [tagl, contl] =
           Inr (tags(Some (take 2 (strip tagl)) \<mapsto>
                  vs @ [strip (drop 6 (strip tagl)) @ '' '' @ strip contl]),
                Some (take 2 (strip tagl)))
       \<and> (tm_abstract tm = Some ''AB'' \<longrightarrow>
            (\<exists>r. parse_ris_record (''AB  - Part one'' @ [CHR 0x0A] @ ''of the abstract'') tm
                   = Inr r
                 \<and> abstract r = Some ''Part one of the abstract''))"
proof -
  have general: "process_lines rel (tags, cur) [tagl, contl] =
           Inr (tags(Some (take 2 (strip tagl)) \<mapsto>
                  vs @ [strip (drop 6 (strip tagl)) @ '' '' @ strip contl]),
                Some (take 2 (strip tagl)))"
    if "is_tag_line (strip tagl)" "Some (take 2 (strip tagl)) \<in> set rel"
       "tags (Some (take 2 (strip tagl))) = Some vs"
       "strip contl \<noteq> []" "\<not> is_tag_line (strip contl)"
    for rel tags cur tagl contl vs
  proof -
    let ?t = "take 2 (strip tagl)"
    let ?tags1 = "tags(Some ?t \<mapsto> vs @ [strip (drop 6 (strip tagl))])"
    from that(1) have "6 \<le> length (strip tagl)" by (simp add: is_tag_line_def)
    then have t: "?t \<noteq> []" by auto
    have first: "process_line rel (tags, cur) tagl = Inr (?tags1, Some ?t)"
      using process_line_tracked_tag [where tagl = tagl and rel = rel and tags = tags and vs = vs
          and cur = cur] that(1,2,3) by blast
    have "?tags1 (Some ?t) = Some (vs @ [strip (drop 6 (strip tagl))])" by simp
    with process_line_continuation [where contl = contl and tags = ?tags1 and t = ?t and vs = vs
        and v = "strip (drop 6 (strip tagl))" and rel = rel] that(4,5) t
    have second: "process_line rel (?tags1, Some ?t) contl =
        Inr (?tags1(Some ?t \<mapsto> vs @ [strip (drop 6 (strip tagl)) @ '' '' @ strip contl]), Some ?t)"
      by blast
    from first second show ?thesis by simp
  qed
  have example: "\<exists>r. parse_ris_record (''AB  - Part one'' @ [CHR 0x0A] @ ''of the abstract'') tm
                   = Inr r \<and> abstract r = Some ''Part one of the abstract''"
    if ab: "tm_abstract tm = Some ''AB''"
  proof -
    let ?rel = "relevant_tags tm"
    note two = two_lines_of_abstract
    have tracked: "Some (take 2 (strip ''AB  - Part one'')) \<in> set ?rel"
      using ab two by (simp add: relevant_tags_def)
    have dict: "empty_tags ?rel (Some (take 2 (strip ''AB  - Part one''))) = Some []"
      using tracked by (simp add: empty_tags_def)
    have "process_lines ?rel (empty_tags ?rel, None) [''AB  - Part one'', ''of the abstract'']
        = Inr ((empty_tags ?rel)(Some ''AB'' \<mapsto> [''Part one of the abstract'']), Some ''AB'')"
      using general [where tagl = "''AB  - Part one''" and rel = ?rel and tags = "empty_tags ?rel"
          and vs = "[]" and contl = "''of the abstract''" and cur = None]
        tracked dict two by simp
    then show ?thesis
      using ab two
      by (simp add: parse_ris_record_def Let_def build_result_def tag_values_def truthy_def)
  qed
  from general [where tagl = tagl and rel = rel and tags = tags and vs = vs and contl = contl
      and cur = cur] assms example
  show ?thesis by blast
qed

theorem continuation_line_appends_to_last_value_witness:
  "process_lines (relevant_tags example_mapping)
      (empty_tags (relevant_tags example_mapping), None)
      [''AB  - Part one'', ''of the abstract'']
     = Inr ((empty_tags (relevant_tags example_mapping))
              (Some ''AB'' \<mapsto> [''Part one of the abstract'']), Some ''AB'')
   \<and> (\<exists>r. parse_ris_record (''AB  - Part one'' @ [CHR 0x0A] @ ''of the abstract'')
            example_mapping = Inr r
          \<and> abstract r = Some ''Part one of the abstract'')"
proof -
  let ?rel = "relevant_tags example_mapping"
  note two = two_lines_of_abstract
  have h1: "is_tag_line (strip ''AB  - Part one'')" using two by simp
  have h2: "Some (take 2 (strip ''AB  - Part one'')) \<in> set ?rel"
    using two by (simp add: relevant_tags_def example_mapping_def)
  have h3: "empty_tags ?rel (Some (take 2 (strip ''AB  - Part one''))) = Some []"
    using h2 by (simp add: empty_tags_def)
  have h4: "strip ''of the abstract'' \<noteq> []" using two by simp
  have h5: "\<not> is_tag_line (strip ''of the abstract'')" using two by simp
  have ab: "tm_abstract example_mapping = Some ''AB''" by (simp add: example_mapping_def)
  from continuation_line_appends_to_last_value [where tagl = "''AB  - Part one''"
      and rel = ?rel and tags = "empty_tags ?rel" and vs = "[]" and contl = "''of the abstract''"
      and cur = None and tm = example_mapping] h1 h2 h3 h4 h5 two ab
  show ?thesis by simp
qed

section \<open>A last record without terminator\<close>

lemma linebreak_cr_lf: "is_linebreak (CHR 0x0D)" "is_linebreak (CHR 0x0A)"
  by (simp_all add: is_linebreak_def)

lemma splitlines_from_terminator:
  assumes "\<forall>c \<in> set t. \<not> is_linebreak c" and "t \<noteq> []"
  shows "\<exists>es. splitlines_from cur (a @ CHR 0x0A # t) = splitlines_from cur a @ es @ [t]
           \<and> set es \<subseteq> {[]}"
proof -
  have line: "splitlines_from [] t = [t]"
    if "\<forall>c \<in> set t. \<not> is_linebreak c" "t \<noteq> []" for t
  proof -
    have "splitlines_from acc t = (if acc @ t = [] then [] else [acc @ t])"
      if "\<forall>c \<in> set t. \<not> is_linebreak c" for acc
      using that by (induction acc t rule: splitlines_from.induct) (auto simp: linebreak_cr_lf)
    from this [of "[]"] that show ?thesis by simp
  qed
  have lf: "is_linebreak (CHR 0x0A)" by (simp add: is_linebreak_def)
  obtain c cs where t: "t = c # cs" using assms(2) by (cases t) auto
  have brk: "splitlines_from acc (CHR 0x0A # t) = [acc, t]" for acc
    using line [OF assms] lf by (simp add: t)
  show ?thesis
  proof (induction cur a rule: splitlines_from.induct)
    case (1 cur)
    show ?case
    proof (cases "cur = []")
      case True
      then show ?thesis using brk [of cur] by (intro exI [of _ "[[]]"]) simp
    next
      case False
      then show ?thesis using brk [of cur] by (intro exI [of _ "[]"]) simp
    qed
  next
    case (2 cur c)
    consider (crlf) "c = CHR 0x0D" | (other) "c \<noteq> CHR 0x0D" "is_linebreak c"
      | (plain) "\<not> is_linebreak c"
      by (auto simp: is_linebreak_def)
    then show ?case
    proof cases
      case crlf
      then show ?thesis
        using line [OF assms] by (intro exI [of _ "[]"]) (simp add: is_linebreak_def)
    next
      case other
      then show ?thesis
        using brk [of "[]"] by (intro exI [of _ "[[]]"]) simp
    next
      case plain
      then have "c \<noteq> CHR 0x0D" by (auto simp: is_linebreak_def)
      with plain show ?thesis
        using brk [of "cur @ [c]"] by (intro exI [of _ "[]"]) simp
    qed
  next
    case (3 cur c d cs)
    then show ?case by auto
  qed
qed

lemma is_end_marker_empty: "\<not> is_end_marker []"
  by (simp add: is_end_marker_def startswith_def)

lemma strip_empty: "strip [] = []"
  by (simp add: strip_def)

lemma scan_lines_final_marker:
  assumes "set es \<subseteq> {[]}" and "is_end_marker (strip t)"
  shows "scan_lines tm records current_record (ls @ es @ [t])
           = scan_lines tm records current_record ls"
proof (induction ls arbitrary: records current_record)
  case Nil
  have last: "scan_lines tm records current_record [t] = scan_lines tm records current_record []"
    for records current_record
    using assms(2) by (simp add: Let_def split: sum.splits)
  have "scan_lines tm records current_record (es @ [t])
      = scan_lines tm records current_record [t]"
    using assms(1)
  proof (induction es)
    case Nil
    then show ?case by simp
  next
    case (Cons e es)
    then have "e = []" by simp
    with Cons show ?case by (simp add: Let_def strip_empty is_end_marker_empty)
  qed
  with last show ?case by simp
next
  case (Cons l ls)
  show ?case
    by (simp add: Let_def Cons.IH split: sum.splits)
qed

lemma parse_ris_content_terminator:
  assumes "\<forall>c \<in> set t. \<not> is_linebreak c" and "is_end_marker (strip t)"
  shows "parse_ris_content (content @ CHR 0x0A # t) tm = parse_ris_content content tm"
proof -
  from assms(2) have "t \<noteq> []"
    using is_end_marker_empty strip_empty by auto
  from splitlines_from_terminator [OF assms(1) this, of "[]" content] obtain es where
    "splitlines (content @ CHR 0x0A # t) = splitlines content @ es @ [t]" "set es \<subseteq> {[]}"
    by (auto simp: splitlines_def)
  then show ?thesis
    using scan_lines_final_marker [OF _ assms(2)] by (simp add: parse_ris_content_def)
qed

lemma terminators:
  "(\<forall>c \<in> set ''ER  - ''. \<not> is_linebreak c) \<and> is_end_marker (strip ''ER  - '')
   \<and> (\<forall>c \<in> set ''ER''. \<not> is_linebreak c) \<and> is_end_marker (strip ''ER'')"
  by code_simp

text \<open>
C7. For every content and mapping, parsing gives the same result whether or not a
  terminator line (\<open>ER  - \<close> or \<open>ER\<close>) follows the last record: after the scan, a
  buffer that is not empty is flushed like a chunk closed by a terminator, so the last
  record is parsed and kept under the same condition.
\<close>

theorem last_record_without_terminator:
  "parse_ris_content (content @ [CHR 0x0A] @ ''ER  - '') tm = parse_ris_content content tm
   \<and> parse_ris_content (content @ [CHR 0x0A] @ ''ER'') tm = parse_ris_content content tm
   \<and> (current_record \<noteq> [] \<longrightarrow>
        scan_lines tm records current_record [] = flush_record tm records current_record)"
  using terminators parse_ris_content_terminator [of "''ER  - ''" content tm]
    parse_ris_content_terminator [of "''ER''" content tm]
  by simp

theorem last_record_without_terminator_witness:
  "parse_ris_content ''TI  - Hello'' example_mapping = Inr [simple_record ''Hello'' None]
   \<and> parse_ris_content (''TI  - Hello'' @ [CHR 0x0A] @ ''ER  - '') example_mapping
       = Inr [simple_record ''Hello'' None]"
proof -
  have "parse_ris_content ''TI  - Hello'' example_mapping = Inr [simple_record ''Hello'' None]"
    by code_simp
  with last_record_without_terminator [of "''TI  - Hello''" example_mapping]
  show ?thesis by simp
qed

section \<open>Storing a record (store\_record\_in\_database in utils/parser.py)\<close>

lemma select_id_Some: "select_id rows n = Some i \<Longrightarrow> (i, n) \<in> set rows"
  by (induction rows) (auto simp: select_id_def split: if_splits)

lemma select_id_None: "select_id rows n = None \<Longrightarrow> n \<notin> snd ` set rows"
  by (auto simp: select_id_def find_None_iff)

lemma get_or_create_name:
  assumes "a \<noteq> []"
  shows "\<exists>j rows'. get_or_create rows (Some a) = Inr (Some j, rows')
     \<and> j \<in> fst ` set rows' \<and> snd ` set rows' = snd ` set rows \<union> {a}"
proof (cases "select_id rows a")
  case (Some i)
  from select_id_Some [OF Some] have "i \<in> fst ` set rows" "a \<in> snd ` set rows"
    by force+
  with assms Some show ?thesis
    by (auto simp: get_or_create_def)
next
  case None
  from select_id_None [OF None] have "a \<notin> snd ` set rows" .
  with assms None show ?thesis
    by (auto simp: get_or_create_def insert_name_def Let_def)
qed

lemma get_or_create_fk:
  "\<exists>i rows'. get_or_create rows name = Inr (i, rows')
     \<and> fk_ok i (map fst rows') \<and> (\<not> truthy name \<longrightarrow> i = None \<and> rows' = rows)"
proof (cases "truthy name")
  case False
  then show ?thesis
    by (auto simp: get_or_create_def truthy_def fk_ok_def split: option.splits)
next
  case True
  then obtain n where n: "name = Some n" "n \<noteq> []"
    by (auto simp: truthy_def split: option.splits)
  from get_or_create_name [OF n(2), of rows] obtain j rows' where
      "get_or_create rows (Some n) = Inr (Some j, rows')" and "j \<in> fst ` set rows'"
    by (elim exE conjE)
  with n True show ?thesis
    by (intro exI [of _ "Some j"] exI [of _ rows']) (simp add: fk_ok_def)
qed

lemma insert_or_ignore_ok:
  assumes "a \<in> set left_ids" and "b \<in> set right_ids"
  shows "\<exists>links'. insert_or_ignore links left_ids right_ids a (Some b) = Inr links'"
  using assms by (simp add: insert_or_ignore_def)

lemma store_authors_ok:
  assumes "article_id \<in> set (map art_id (tbl_articles db))"
  shows "\<exists>db'. store_authors db article_id names = Inr db'
     \<and> tbl_articles db' = tbl_articles db \<and> tbl_sources db' = tbl_sources db
     \<and> tbl_journals db' = tbl_journals db \<and> tbl_keywords db' = tbl_keywords db
     \<and> tbl_article_keyword db' = tbl_article_keyword db
     \<and> snd ` set (tbl_authors db') = snd ` set (tbl_authors db) \<union> {a \<in> set names. a \<noteq> []}"
  using assms
proof (induction names arbitrary: db)
  case Nil
  then show ?case by simp
next
  case (Cons a names)
  show ?case
  proof (cases "a = []")
    case True
    with Cons.IH [OF Cons.prems] show ?thesis by auto
  next
    case False
    from get_or_create_name [OF False, of "tbl_authors db"] obtain j rows' where
      g: "get_or_create (tbl_authors db) (Some a) = Inr (Some j, rows')"
      and j: "j \<in> fst ` set rows'"
      and names: "snd ` set rows' = snd ` set (tbl_authors db) \<union> {a}"
      by (elim exE conjE)
    define db1 where "db1 = db\<lparr>tbl_authors := rows'\<rparr>"
    have goc: "get_or_create_author db a = Inr (Some j, db1)"
      using g by (simp add: get_or_create_author_def db1_def)
    have art: "article_id \<in> set (map art_id (tbl_articles db1))"
      using Cons.prems by (simp add: db1_def)
    have "j \<in> set (map fst (tbl_authors db1))"
      using j by (simp add: db1_def)
    from insert_or_ignore_ok [OF art this, of "tbl_article_author db1"] obtain links where
      ins: "insert_or_ignore (tbl_article_author db1) (map art_id (tbl_articles db1))
              (map fst (tbl_authors db1)) article_id (Some j) = Inr links"
      by (elim exE)
    define db2 where "db2 = db1\<lparr>tbl_article_author := links\<rparr>"
    have art2: "article_id \<in> set (map art_id (tbl_articles db2))"
      using art by (simp add: db2_def)
    from Cons.IH [OF art2] obtain db' where
      rest: "store_authors db2 article_id names = Inr db'"
      and same: "tbl_articles db' = tbl_articles db2" "tbl_sources db' = tbl_sources db2"
        "tbl_journals db' = tbl_journals db2" "tbl_keywords db' = tbl_keywords db2"
        "tbl_article_keyword db' = tbl_article_keyword db2"
      and au: "snd ` set (tbl_authors db') = snd ` set (tbl_authors db2) \<union> {a \<in> set names. a \<noteq> []}"
      by (elim exE conjE)
    have step: "store_authors db article_id (a # names) = Inr db'"
      using False goc ins rest by (simp add: db2_def)
    have "snd ` set (tbl_authors db2) = snd ` set (tbl_authors db) \<union> {a}"
      using names by (simp add: db2_def db1_def)
    with au False have "snd ` set (tbl_authors db')
        = snd ` set (tbl_authors db) \<union> {x \<in> set (a # names). x \<noteq> []}"
      by auto
    with step same show ?thesis
      by (simp add: db2_def db1_def)
  qed
qed

lemma store_keywords_ok:
  assumes "article_id \<in> set (map art_id (tbl_articles db))"
  shows "\<exists>db'. store_keywords db article_id terms = Inr db'
     \<and> tbl_articles db' = tbl_articles db \<and> tbl_sources db' = tbl_sources db
     \<and> tbl_journals db' = tbl_journals db \<and> tbl_authors db' = tbl_authors db
     \<and> tbl_article_author db' = tbl_article_author db
     \<and> snd ` set (tbl_keywords db') = snd ` set (tbl_keywords db) \<union> {k \<in> set terms. k \<noteq> []}"
  using assms
proof (induction terms arbitrary: db)
  case Nil
  then show ?case by simp
next
  case (Cons a terms)
  show ?case
  proof (cases "a = []")
    case True
    with Cons.IH [OF Cons.prems] show ?thesis by auto
  next
    case False
    from get_or_create_name [OF False, of "tbl_keywords db"] obtain j rows' where
      g: "get_or_create (tbl_keywords db) (Some a) = Inr (Some j, rows')"
      and j: "j \<in> fst ` set rows'"
      and names: "snd ` set rows' = snd ` set (tbl_keywords db) \<union> {a}"
      by (elim exE conjE)
    define db1 where "db1 = db\<lparr>tbl_keywords := rows'\<rparr>"
    have goc: "get_or_create_keyword db a = Inr (Some j, db1)"
      using g by (simp add: get_or_create_keyword_def db1_def)
    have art: "article_id \<in> set (map art_id (tbl_articles db1))"
      using Cons.prems by (simp add: db1_def)
    have "j \<in> set (map fst (tbl_keywords db1))"
      using j by (simp add: db1_def)
    from insert_or_ignore_ok [OF art this, of "tbl_article_keyword db1"] obtain links where
      ins: "insert_or_ignore (tbl_article_keyword db1) (map art_id (tbl_articles db1))
              (map fst (tbl_keywords db1)) article_id (Some j) = Inr links"
      by (elim exE)
    define db2 where "db2 = db1\<lparr>tbl_article_keyword := links\<rparr>"
    have art2: "article_id \<in> set (map art_id (tbl_articles db2))"
      using art by (simp add: db2_def)
    from Cons.IH [OF art2] obtain db' where
      rest: "store_keywords db2 article_id terms = Inr db'"
      and same: "tbl_articles db' = tbl_articles db2" "tbl_sources db' = tbl_sources db2"
        "tbl_journals db' = tbl_journals db2" "tbl_authors db' = tbl_authors db2"
        "tbl_article_author db' = tbl_article_author db2"
      and kw: "snd ` set (tbl_keywords db') = snd ` set (tbl_keywords db2) \<union> {k \<in> set terms. k \<noteq> []}"
      by (elim exE conjE)
    have step: "store_keywords db article_id (a # terms) = Inr db'"
      using False goc ins rest by (simp add: db2_def)
    have "snd ` set (tbl_keywords db2) = snd ` set (tbl_keywords db) \<union> {a}"
      using names by (simp add: db2_def db1_def)
    with kw False have "snd ` set (tbl_keywords db')
        = snd ` set (tbl_keywords db) \<union> {x \<in> set (a # terms). x \<noteq> []}"
      by auto
    with step same show ?thesis
      by (simp add: db2_def db1_def)
  qed
qed

text \<open>
  The year of a record comes from \<open>year_search\<close>, which returns four digits: every
  record of the parser has a year that SQLite can hold. A year outside the signed 64-bit
  range, which only a record built by other means can have, makes the insert of the
  article raise \<open>OverflowError\<close>.
\<close>

lemma digit_range:
  assumes "is_digit c"
  shows "0 \<le> int (of_char c) - 48 \<and> int (of_char c) - 48 \<le> 9"
  using assms by (simp add: is_digit_def)

lemma fold_digits_range:
  assumes "list_all is_digit ds" and "0 \<le> n"
  shows "0 \<le> fold (\<lambda>c n. 10 * n + (int (of_char c) - 48)) ds n
       \<and> fold (\<lambda>c n. 10 * n + (int (of_char c) - 48)) ds n < 10 ^ length ds * (n + 1)"
  using assms
proof (induction ds arbitrary: n)
  case Nil
  then show ?case by simp
next
  case (Cons c cs)
  from Cons.prems have d: "is_digit c" and ds: "list_all is_digit cs"
    by simp_all
  define m where "m = 10 * n + (int (of_char c) - 48)"
  from digit_range [OF d] Cons.prems(2) have m0: "0 \<le> m" and m1: "m + 1 \<le> 10 * (n + 1)"
    by (simp_all add: m_def)
  from Cons.IH [OF ds m0]
  have lo: "0 \<le> fold (\<lambda>c n. 10 * n + (int (of_char c) - 48)) cs m"
    and hi: "fold (\<lambda>c n. 10 * n + (int (of_char c) - 48)) cs m < 10 ^ length cs * (m + 1)"
    by simp_all
  have "(10::int) ^ length cs * (m + 1) \<le> 10 ^ length cs * (10 * (n + 1))"
    using m1 by (intro mult_left_mono) simp_all
  with hi have "fold (\<lambda>c n. 10 * n + (int (of_char c) - 48)) cs m
      < 10 ^ length (c # cs) * (n + 1)"
    by (simp add: algebra_simps)
  with lo show ?case
    by (simp add: m_def)
qed

lemma digits_value_range:
  assumes "list_all is_digit ds" and "length ds = 4"
  shows "0 \<le> digits_value ds \<and> digits_value ds \<le> 9999"
  using fold_digits_range [OF assms(1), of 0] assms(2)
  by (simp add: digits_value_def)

lemma year_search_range:
  assumes "year_search prev s = Some y"
  shows "0 \<le> y \<and> y \<le> 9999"
  using assms
proof (induction s arbitrary: prev)
  case Nil
  then show ?case by simp
next
  case (Cons c cs)
  define found where "found \<longleftrightarrow>
     \<not> prev \<and> 4 \<le> length (c # cs) \<and> list_all is_digit (take 4 (c # cs))
       \<and> (case drop 4 (c # cs) of [] \<Rightarrow> True | d # _ \<Rightarrow> \<not> is_word d)"
  have step: "year_search prev (c # cs) =
      (if found then Some (digits_value (take 4 (c # cs))) else year_search (is_word c) cs)"
    unfolding found_def by (rule year_search.simps(2))
  show ?case
  proof (cases found)
    case True
    then have digits: "list_all is_digit (take 4 (c # cs))"
      unfolding found_def by (elim conjE)
    from True have "4 \<le> length (c # cs)"
      unfolding found_def by (elim conjE)
    then have "length (take 4 (c # cs)) = 4"
      by (simp del: take_Suc_Cons)
    note digits this
    from digits_value_range [OF this] Cons.prems True show ?thesis
      unfolding step by simp
  next
    case False
    with Cons.prems have "year_search (is_word c) cs = Some y"
      unfolding step by simp
    from Cons.IH [OF this] show ?thesis .
  qed
qed

lemma year_search_sqlite_int: "sqlite_int (year_search prev s)"
proof (cases "year_search prev s")
  case None
  then show ?thesis by (simp add: sqlite_int_def)
next
  case (Some y)
  from year_search_range [OF Some] Some show ?thesis
    by (simp add: sqlite_int_def)
qed

lemma build_result_year: "sqlite_int (year (build_result tm tags))"
proof (cases "tag_values tags (tm_publication_year tm)")
  case Nil
  then show ?thesis by (simp add: build_result_def sqlite_int_def)
next
  case (Cons v vs)
  then show ?thesis by (simp add: build_result_def year_search_sqlite_int)
qed

lemma parse_ris_record_year:
  assumes "parse_ris_record record_str tm = Inr r"
  shows "sqlite_int (year r)"
  using assms build_result_year
  by (auto simp: parse_ris_record_def Let_def split: sum.splits)

lemma flush_record_year:
  assumes "flush_record tm records current_record = Inr rs"
      and "list_all (\<lambda>r. sqlite_int (year r)) records"
  shows "list_all (\<lambda>r. sqlite_int (year r)) rs"
  using assms parse_ris_record_year
  by (auto simp: flush_record_def split: sum.splits if_splits)

lemma scan_lines_year:
  assumes "scan_lines tm records current_record ls = Inr rs"
      and "list_all (\<lambda>r. sqlite_int (year r)) records"
  shows "list_all (\<lambda>r. sqlite_int (year r)) rs"
  using assms
proof (induction ls arbitrary: records current_record)
  case Nil
  then show ?case
    using flush_record_year [of tm records current_record rs]
    by (simp split: if_splits)
next
  case (Cons l ls)
  show ?case
  proof (cases "is_end_marker (strip l) \<and> current_record \<noteq> []")
    case True
    with Cons.prems(1) obtain records' where
      f: "flush_record tm records current_record = Inr records'"
      and s: "scan_lines tm records' [] ls = Inr rs"
      by (auto simp: Let_def split: sum.splits)
    from Cons.IH [OF s flush_record_year [OF f Cons.prems(2)]] show ?thesis .
  next
    case False
    with Cons.prems(1) have
      "scan_lines tm records current_record ls = Inr rs
       \<or> scan_lines tm records (current_record @ [strip l]) ls = Inr rs"
      by (auto simp: Let_def split: if_splits)
    then show ?thesis
      using Cons.IH [OF _ Cons.prems(2)] by auto
  qed
qed

lemma parsed_records_year_range:
  assumes "parse_ris_content content tm = Inr rs"
  shows "list_all (\<lambda>r. sqlite_int (year r)) rs"
  using scan_lines_year [of tm "[]" "[]" "splitlines content" rs] assms
  by (simp add: parse_ris_content_def)

lemma store_record_year_overflow:
  assumes "\<not> sqlite_int (year r)"
  shows "store_record_in_database db r src = Inl OverflowError"
proof -
  from get_or_create_fk [of "tbl_sources db" "Some src"] obtain source_id srows where
    s: "get_or_create (tbl_sources db) (Some src) = Inr (source_id, srows)"
    by (elim exE conjE)
  from get_or_create_fk [of "tbl_journals (db\<lparr>tbl_sources := srows\<rparr>)" "journal r"]
  obtain journal_id jrows where
    j: "get_or_create (tbl_journals (db\<lparr>tbl_sources := srows\<rparr>)) (journal r)
          = Inr (journal_id, jrows)"
    by (elim exE conjE)
  show ?thesis
    using assms s j
    by (simp add: store_record_in_database_def get_or_create_source_def
        get_or_create_journal_def insert_article_def)
qed

text \<open>
C10. Storing a record that has a title, and whose year is absent or a signed 64-bit
  integer (as is the year of every record of the parser), always succeeds, whatever its
  optional fields: \<open>store_record_in_database\<close> returns the identifier of the new
  article, and the articles table is the old one followed by exactly one row, which
  carries the title, the year and the abstract of the record as they are (\<open>NULL\<close> when
  absent). When the journal name is absent or empty the journal identifier of that row is
  \<open>NULL\<close> and the journals table is unchanged. The names of the authors table afterwards
  are the old ones and the non-empty entries of the authors sequence, and likewise for
  the keywords: an empty string is skipped, it is neither inserted nor an error.
\<close>

theorem store_record_succeeds:
  assumes "title r = Some t" and "sqlite_int (year r)"
  shows "\<exists>article_id db' journal_id source_id.
       store_record_in_database db r src = Inr (article_id, db')
     \<and> tbl_articles db' = tbl_articles db @
          [\<lparr>art_id = article_id, art_title = t, art_journal_id = journal_id,
            art_source_id = source_id, art_year = year r, art_abstract = abstract r\<rparr>]
     \<and> (\<not> truthy (journal r) \<longrightarrow> journal_id = None \<and> tbl_journals db' = tbl_journals db)
     \<and> snd ` set (tbl_authors db') =
          snd ` set (tbl_authors db) \<union> {a \<in> set (authors r). a \<noteq> []}
     \<and> snd ` set (tbl_keywords db') =
          snd ` set (tbl_keywords db) \<union> {k \<in> set (keywords r). k \<noteq> []}"
proof -
  from get_or_create_fk [of "tbl_sources db" "Some src"] obtain source_id srows where
    s: "get_or_create (tbl_sources db) (Some src) = Inr (source_id, srows)"
    and sfk: "fk_ok source_id (map fst srows)"
    by (elim exE conjE)
  define db1 where "db1 = db\<lparr>tbl_sources := srows\<rparr>"
  have gs: "get_or_create_source db src = Inr (source_id, db1)"
    using s by (simp add: get_or_create_source_def db1_def)
  from get_or_create_fk [of "tbl_journals db1" "journal r"] obtain journal_id jrows where
    j: "get_or_create (tbl_journals db1) (journal r) = Inr (journal_id, jrows)"
    and jfk: "fk_ok journal_id (map fst jrows)"
    and jnone: "\<not> truthy (journal r) \<longrightarrow> journal_id = None \<and> jrows = tbl_journals db1"
    by (elim exE conjE)
  define db2 where "db2 = db1\<lparr>tbl_journals := jrows\<rparr>"
  have gj: "get_or_create_journal db1 (journal r) = Inr (journal_id, db2)"
    using j by (simp add: get_or_create_journal_def db2_def)
  define article_id where "article_id = next_rowid (map art_id (tbl_articles db2))"
  define row where "row = \<lparr>art_id = article_id, art_title = t, art_journal_id = journal_id,
      art_source_id = source_id, art_year = year r, art_abstract = abstract r\<rparr>"
  define db3 where "db3 = db2\<lparr>tbl_articles := tbl_articles db2 @ [row]\<rparr>"
  have ia: "insert_article db2 (title r) journal_id source_id (year r) (abstract r)
      = Inr (article_id, db3)"
    using assms sfk jfk
    by (simp add: insert_article_def db3_def row_def article_id_def db2_def db1_def Let_def)
  have art3: "article_id \<in> set (map art_id (tbl_articles db3))"
    by (simp add: db3_def row_def)
  from store_authors_ok [OF art3, of "authors r"] obtain db4 where
    sa: "store_authors db3 article_id (authors r) = Inr db4"
    and a4: "tbl_articles db4 = tbl_articles db3" "tbl_journals db4 = tbl_journals db3"
      "tbl_keywords db4 = tbl_keywords db3"
    and au: "snd ` set (tbl_authors db4) =
        snd ` set (tbl_authors db3) \<union> {a \<in> set (authors r). a \<noteq> []}"
    by (elim exE conjE)
  have art4: "article_id \<in> set (map art_id (tbl_articles db4))"
    using art3 a4 by simp
  from store_keywords_ok [OF art4, of "keywords r"] obtain db5 where
    sk: "store_keywords db4 article_id (keywords r) = Inr db5"
    and a5: "tbl_articles db5 = tbl_articles db4" "tbl_journals db5 = tbl_journals db4"
      "tbl_authors db5 = tbl_authors db4"
    and kw: "snd ` set (tbl_keywords db5) =
        snd ` set (tbl_keywords db4) \<union> {k \<in> set (keywords r). k \<noteq> []}"
    by (elim exE conjE)
  have run: "store_record_in_database db r src = Inr (article_id, db5)"
    using gs gj ia sa sk by (simp add: store_record_in_database_def)
  have arts: "tbl_articles db5 = tbl_articles db @ [row]"
    using a5 a4 by (simp add: db3_def db2_def db1_def)
  have jour: "\<not> truthy (journal r) \<longrightarrow> journal_id = None \<and> tbl_journals db5 = tbl_journals db"
    using jnone a5 a4 by (simp add: db3_def db2_def db1_def)
  have auth: "snd ` set (tbl_authors db5) =
      snd ` set (tbl_authors db) \<union> {a \<in> set (authors r). a \<noteq> []}"
    using au a5 by (simp add: db3_def db2_def db1_def)
  have keyw: "snd ` set (tbl_keywords db5) =
      snd ` set (tbl_keywords db) \<union> {k \<in> set (keywords r). k \<noteq> []}"
    using kw a4 by (simp add: db3_def db2_def db1_def)
  have "store_record_in_database db r src = Inr (article_id, db5)
     \<and> tbl_articles db5 = tbl_articles db @
          [\<lparr>art_id = article_id, art_title = t, art_journal_id = journal_id,
            art_source_id = source_id, art_year = year r, art_abstract = abstract r\<rparr>]
     \<and> (\<not> truthy (journal r) \<longrightarrow> journal_id = None \<and> tbl_journals db5 = tbl_journals db)
     \<and> snd ` set (tbl_authors db5) =
          snd ` set (tbl_authors db) \<union> {a \<in> set (authors r). a \<noteq> []}
     \<and> snd ` set (tbl_keywords db5) =
          snd ` set (tbl_keywords db) \<union> {k \<in> set (keywords r). k \<noteq> []}"
    using run arts [unfolded row_def] jour auth keyw by (intro conjI)
  then show ?thesis
    by (intro exI)
qed

theorem store_record_succeeds_witness:
  "\<exists>article_id db'.
       store_record_in_database empty_db
         \<lparr> title = Some ''Deep Learning'', journal = Some [], year = None, abstract = None,
           authors = [[], ''Ada Lovelace''], keywords = [[]] \<rparr> ''Scopus''
         = Inr (article_id, db')
     \<and> map art_journal_id (tbl_articles db') = [None]
     \<and> tbl_journals db' = []
     \<and> snd ` set (tbl_authors db') = {''Ada Lovelace''}
     \<and> snd ` set (tbl_keywords db') = {}"
proof -
  define r where "r = \<lparr> title = Some ''Deep Learning'', journal = Some [], year = None,
     abstract = None, authors = [[], ''Ada Lovelace''], keywords = [[]] \<rparr>"
  define src where "src = ''Scopus''"
  define name where "name = ''Ada Lovelace''"
  have t: "title r = Some ''Deep Learning''"
    by (simp add: r_def)
  have y: "sqlite_int (year r)"
    by (simp add: r_def sqlite_int_def)
  have j: "\<not> truthy (journal r)"
    by (simp add: r_def truthy_def)
  have a: "{a \<in> set (authors r). a \<noteq> []} = {name}"
    by (auto simp: r_def name_def)
  have k: "{k \<in> set (keywords r). k \<noteq> []} = {}"
    by (auto simp: r_def)
  have e: "tbl_articles empty_db = []" "tbl_journals empty_db = []"
    "tbl_authors empty_db = []" "tbl_keywords empty_db = []"
    by (simp_all add: empty_db_def)
  from store_record_succeeds [OF t y, of empty_db src]
  obtain article_id db' journal_id source_id where
    run: "store_record_in_database empty_db r src = Inr (article_id, db')"
    and arts: "tbl_articles db' = tbl_articles empty_db @
          [\<lparr>art_id = article_id, art_title = ''Deep Learning'', art_journal_id = journal_id,
            art_source_id = source_id, art_year = year r, art_abstract = abstract r\<rparr>]"
    and jour: "\<not> truthy (journal r) \<longrightarrow> journal_id = None \<and> tbl_journals db' = tbl_journals empty_db"
    and auth: "snd ` set (tbl_authors db') =
          snd ` set (tbl_authors empty_db) \<union> {a \<in> set (authors r). a \<noteq> []}"
    and keyw: "snd ` set (tbl_keywords db') =
          snd ` set (tbl_keywords empty_db) \<union> {k \<in> set (keywords r). k \<noteq> []}"
    by (elim exE conjE)
  from jour j have jn: "journal_id = None" and jt: "tbl_journals db' = []"
    by (simp_all add: e)
  have c1: "map art_journal_id (tbl_articles db') = [None]"
    using arts jn by (simp add: e)
  have c3: "snd ` set (tbl_authors db') = {name}"
    using auth by (simp add: e a)
  have c4: "snd ` set (tbl_keywords db') = {}"
    using keyw by (simp add: e k)
  have "store_record_in_database empty_db r src = Inr (article_id, db')
     \<and> map art_journal_id (tbl_articles db') = [None]
     \<and> tbl_journals db' = []
     \<and> snd ` set (tbl_authors db') = {name}
     \<and> snd ` set (tbl_keywords db') = {}"
    using run c1 jt c3 c4 by (intro conjI)
  then have "\<exists>article_id db'. store_record_in_database empty_db r src = Inr (article_id, db')
     \<and> map art_journal_id (tbl_articles db') = [None]
     \<and> tbl_journals db' = []
     \<and> snd ` set (tbl_authors db') = {name}
     \<and> snd ` set (tbl_keywords db') = {}"
    by (intro exI)
  then show ?thesis
    unfolding r_def src_def name_def .
qed

end
